theory Spec2Isabelle
  imports Complex_Main "HOL-Library.AList"
begin

section \<open>Graph Studio: the renderer's graph session (src/renderer/App.tsx)\<close>

text \<open>
  The development embeds the graph editor's session logic: the serializer
  (\<open>createGraphJson\<close>, \<open>parseGraphJson\<close>), the layout adapter (\<open>layoutGraph\<close>), the
  handlers that change the session (\<open>onDeleteNode\<close>, \<open>onToggleEdgeDirection\<close>,
  \<open>handleOpen\<close>, \<open>handleSave\<close>) and the debounced autosave effect.

  What the program takes from its platform is a parameter of the model, never a
  definition of it: \<open>JSON.parse\<close> and \<open>JSON.stringify\<close>, the graph object and the
  layout routine of dagre, \<open>path.join\<close>, and the answers of the file dialogs.
\<close>

subsection \<open>JavaScript values\<close>

text \<open>
  A value that \<open>JSON.parse\<close> can return. \<open>undefined\<close> is not among them: a value that
  may be \<open>undefined\<close> has an option type, and \<open>None\<close> is \<open>undefined\<close>.
\<close>

datatype json =
    JNull
  | JBool bool
  | JNum real
  | JStr string
  | JArr "json list"
  | JObj "(string \<times> json) list"

datatype js_error =
    SyntaxError
  | TypeError
  | IOError
  | NotGraphJson

text \<open>
  \<open>SyntaxError\<close> is what \<open>JSON.parse\<close> throws, \<open>TypeError\<close> what a property read on
  \<open>null\<close>, a call of something that is no function and a destructuring of
  \<open>undefined\<close> throw, \<open>IOError\<close> a rejected call of the storage gateway.
  \<open>NotGraphJson\<close> is no JavaScript error: \<open>parseGraphJson\<close> asserts the type
  \<open>GraphJson\<close> without checking it, and the session's fields have the types the source
  declares (\<open>id\<close>, \<open>source\<close>, \<open>target\<close> strings, \<open>label\<close> and \<open>tagColor\<close> strings that a
  document may leave out, \<open>directed\<close> an optional boolean). A document that puts a value
  of another type there is not followed further; the model stops with \<open>NotGraphJson\<close>.
\<close>

text \<open>
  \<open>v.k\<close> on a value that is not \<open>null\<close>. Only the keys \<open>nodes\<close>, \<open>edges\<close>, \<open>id\<close>, \<open>label\<close>,
  \<open>tagColor\<close>, \<open>source\<close>, \<open>target\<close> and \<open>directed\<close> are ever read, and no primitive or
  array has a property of these names, so only an object can answer.
\<close>

fun js_prop :: "json \<Rightarrow> string \<Rightarrow> json option" where
  "js_prop (JObj kvs) k = map_of kvs k"
| "js_prop _ k = None"

text \<open>JavaScript's truthiness, as \<open>||\<close>, \<open>&&\<close>, \<open>!\<close> and \<open>if\<close> read a value.\<close>

fun truthy :: "json option \<Rightarrow> bool" where
  "truthy None = False"
| "truthy (Some JNull) = False"
| "truthy (Some (JBool b)) = b"
| "truthy (Some (JNum r)) = (r \<noteq> 0)"
| "truthy (Some (JStr s)) = (s \<noteq> [])"
| "truthy (Some (JArr _)) = True"
| "truthy (Some (JObj _)) = True"

text \<open>The same for a value of type \<open>string | null | undefined\<close>: the empty string is falsy.\<close>

definition truthy_str :: "string option \<Rightarrow> bool" where
  "truthy_str x = (case x of None \<Rightarrow> False | Some s \<Rightarrow> s \<noteq> [])"

text \<open>\<open>Array.prototype.map\<close> with a callback that may throw: the first throw ends it.\<close>

fun traverse :: "('a \<Rightarrow> 'e + 'b) \<Rightarrow> 'a list \<Rightarrow> 'e + 'b list" where
  "traverse f [] = Inr []"
| "traverse f (x # xs) =
     (case f x of
        Inl e \<Rightarrow> Inl e
      | Inr y \<Rightarrow> (case traverse f xs of Inl e \<Rightarrow> Inl e | Inr ys \<Rightarrow> Inr (y # ys)))"

text \<open>A number in a template literal: its decimal digits.\<close>

fun digit_char :: "nat \<Rightarrow> char" where
  "digit_char n = char_of (48 + n)"

fun show_nat :: "nat \<Rightarrow> string" where
  "show_nat n = (if n < 10 then [digit_char n] else show_nat (n div 10) @ [digit_char (n mod 10)])"

declare show_nat.simps [simp del]

subsection \<open>The data model\<close>

record GraphNodeData =
  label :: "string option"
  tagColor :: "string option"

record node =
  node_id :: string
  node_type :: string
  position :: "real \<times> real"
  node_data :: GraphNodeData

record GraphFile =
  filePath :: string
  baseDir :: string

record GraphFilePayload = GraphFile +
  payload_data :: string

record TagMeta =
  tag_id :: string
  name :: string
  color :: string

record EdgeStyle =
  stroke :: string
  strokeWidth :: nat

datatype MarkerType = Arrow | ArrowClosed

record EdgeMarker =
  marker_type :: MarkerType
  marker_color :: string

record EdgeData =
  directed :: "bool option"

record edge =
  edge_id :: string
  source :: string
  target :: string
  edge_type :: "string option"
  style :: "EdgeStyle option"
  edge_data :: "EdgeData option"
  markerEnd :: "EdgeMarker option"

text \<open>What \<open>parseGraphJson\<close> returns: two values of the parsed document, not yet looked at.\<close>

record GraphJson =
  json_nodes :: json
  json_edges :: json

definition nodeWidth :: real where
  "nodeWidth = 220"

definition nodeHeight :: real where
  "nodeHeight = 80"

definition defaultEdgeStyle :: EdgeStyle where
  "defaultEdgeStyle = \<lparr>stroke = ''#94a3b8'', strokeWidth = 2\<rparr>"

definition arrowMarker :: EdgeMarker where
  "arrowMarker = \<lparr>marker_type = ArrowClosed, marker_color = stroke defaultEdgeStyle\<rparr>"

text \<open>\<open>edge.data?.directed ?? true\<close>: an edge without the flag counts as directed.\<close>

definition isDirected :: "edge \<Rightarrow> bool" where
  "isDirected e =
     (case edge_data e of
        None \<Rightarrow> True
      | Some d \<Rightarrow> (case directed d of None \<Rightarrow> True | Some b \<Rightarrow> b))"

definition initialNodes :: "node list" where
  "initialNodes =
     [\<lparr>node_id = ''node-1'', node_type = ''graphNode'', position = (0, 0),
        node_data = \<lparr>label = Some ''Idea'', tagColor = Some ''#6366F1''\<rparr>\<rparr>,
      \<lparr>node_id = ''node-2'', node_type = ''graphNode'', position = (300, 0),
        node_data = \<lparr>label = Some ''Next'', tagColor = Some ''#22C55E''\<rparr>\<rparr>]"

definition initialEdges :: "edge list" where
  "initialEdges =
     [\<lparr>edge_id = ''e1-2'', source = ''node-1'', target = ''node-2'',
        edge_type = Some ''smoothstep'', style = Some defaultEdgeStyle,
        edge_data = Some \<lparr>directed = Some True\<rparr>, markerEnd = Some arrowMarker\<rparr>]"

subsection \<open>The platform\<close>

text \<open>
  \<open>JSON_parse\<close> returns \<open>None\<close> where \<open>JSON.parse\<close> throws its \<open>SyntaxError\<close>;
  \<open>JSON_stringify v\<close> is \<open>JSON.stringify(v, null, 2)\<close>. The graph of dagre's graphlib
  is an abstract type \<open>'g\<close> with the five operations \<open>layoutGraph\<close> calls; the program
  mutates one graph object, the model passes it on. \<open>graph_node g v\<close> is the \<open>x\<close> and
  \<open>y\<close> of the label of node \<open>v\<close>, \<open>None\<close> where \<open>g.node(v)\<close> is \<open>undefined\<close>.
  \<open>dagre.layout\<close> is a routine of a library that is not this program's: it may throw,
  and it may keep state of its own from one call to the next, so that what a call
  does can depend on which call it is. \<open>dagre_layout k g\<close> is what the call does to
  the graph \<open>g\<close> when it is the \<open>k\<close>-th call of \<open>dagre.layout\<close> that the page makes: the
  graph as the call leaves it, or the error it throws.
  \<open>path_join\<close> is \<open>path.join\<close> of the main process, \<open>addEdge\<close> the function of that
  name of React Flow. Where \<open>addEdge\<close> adds nothing (the connection lacks a source or
  a target, or an edge with that source and target is there already) it returns the
  very array it was given: \<open>None\<close>. Otherwise it returns a new array.
\<close>

record 'g platform =
  JSON_parse :: "string \<Rightarrow> json option"
  JSON_stringify :: "json \<Rightarrow> string"
  new_Graph :: 'g
  setGraph :: "string \<Rightarrow> nat \<Rightarrow> nat \<Rightarrow> 'g \<Rightarrow> 'g"
  setDefaultEdgeLabel :: "'g \<Rightarrow> 'g"
  setNode :: "string \<Rightarrow> real \<Rightarrow> real \<Rightarrow> 'g \<Rightarrow> 'g"
  setEdge :: "string \<Rightarrow> string \<Rightarrow> 'g \<Rightarrow> 'g"
  dagre_layout :: "nat \<Rightarrow> 'g \<Rightarrow> js_error + 'g"
  graph_node :: "'g \<Rightarrow> string \<Rightarrow> (real \<times> real) option"
  path_join :: "string list \<Rightarrow> string"
  addEdge :: "edge \<Rightarrow> edge list \<Rightarrow> edge list option"

subsection \<open>The layout adapter\<close>

definition place :: "'g platform \<Rightarrow> 'g \<Rightarrow> node \<Rightarrow> js_error + node" where
  "place pf g n =
     (case graph_node pf g (node_id n) of
        None \<Rightarrow> Inl TypeError
      | Some (x, y) \<Rightarrow> Inr (n\<lparr>position := (x - nodeWidth / 2, y - nodeHeight / 2)\<rparr>))"

definition build_graph :: "'g platform \<Rightarrow> node list \<Rightarrow> edge list \<Rightarrow> 'g" where
  "build_graph pf ns es =
     fold (\<lambda>e. setEdge pf (source e) (target e)) es
       (fold (\<lambda>n. setNode pf (node_id n) nodeWidth nodeHeight) ns
          (setDefaultEdgeLabel pf (setGraph pf ''LR'' 60 80 (new_Graph pf))))"

text \<open>\<open>layoutGraph\<close>, where its call of \<open>dagre.layout\<close> is the \<open>k\<close>-th.\<close>

definition layoutGraph ::
  "'g platform \<Rightarrow> nat \<Rightarrow> node list \<Rightarrow> edge list \<Rightarrow> js_error + node list" where
  "layoutGraph pf k ns es =
     (case dagre_layout pf k (build_graph pf ns es) of
        Inl e \<Rightarrow> Inl e
      | Inr g \<Rightarrow> traverse (place pf g) ns)"



subsection \<open>The serializer\<close>

text \<open>
  An object literal as \<open>JSON.stringify\<close> reads it: a property whose value is
  \<open>undefined\<close> is left out.
\<close>

definition obj :: "(string \<times> json option) list \<Rightarrow> json" where
  "obj kvs = JObj (List.map_filter (\<lambda>(k, v). map_option (Pair k) v) kvs)"

definition node_json :: "node \<Rightarrow> json" where
  "node_json n =
     obj [(''id'', Some (JStr (node_id n))),
          (''label'', map_option JStr (label (node_data n))),
          (''tagColor'', map_option JStr (tagColor (node_data n)))]"

definition edge_json :: "edge \<Rightarrow> json" where
  "edge_json e =
     obj [(''source'', Some (JStr (source e))),
          (''target'', Some (JStr (target e))),
          (''directed'', Some (JBool (isDirected e)))]"

definition createGraphJson :: "node list \<Rightarrow> edge list \<Rightarrow> json" where
  "createGraphJson ns es =
     obj [(''nodes'', Some (JArr (map node_json ns))),
          (''edges'', Some (JArr (map edge_json es)))]"

text \<open>\<open>v || []\<close>\<close>

definition or_empty :: "json option \<Rightarrow> json" where
  "or_empty v = (if truthy v then the v else JArr [])"

definition parseGraphJson :: "'g platform \<Rightarrow> string \<Rightarrow> js_error + GraphJson" where
  "parseGraphJson pf raw =
     (case JSON_parse pf raw of
        None \<Rightarrow> Inl SyntaxError
      | Some JNull \<Rightarrow> Inl TypeError
      | Some parsed \<Rightarrow>
          Inr \<lparr>json_nodes = or_empty (js_prop parsed ''nodes''),
               json_edges = or_empty (js_prop parsed ''edges'')\<rparr>)"

subsection \<open>The session\<close>

text \<open>
  The state of the \<open>App\<close> component, one field for each \<open>useState\<close>. \<open>nodeNotes\<close> is a
  \<open>Record<string, string>\<close>, made by \<open>{}\<close> and by spreads: a plain object. The
  association list holds its own properties.
\<close>

record session =
  nodes :: "node list"
  edges :: "edge list"
  selectedNodeId :: "string option"
  selectedEdgeId :: "string option"
  graphFile :: "GraphFile option"
  nodeNotes :: "(string \<times> string) list"
  tags :: "TagMeta list"
  selectedTagColor :: "string option"
  newTagName :: string
  newTagColor :: string
  status :: string

text \<open>
  \<open>nodeNotes[id]\<close>. A read of a plain object finds its own property of that name;
  where it has none, it finds what \<open>Object.prototype\<close> defines under the name, a
  function or (for \<open>__proto__\<close>) the prototype itself; otherwise it is \<open>undefined\<close>. A
  node id is whatever string the document gives, so it can be one of these names.
\<close>

definition Object_prototype :: "string list" where
  "Object_prototype =
     [''constructor'', ''hasOwnProperty'', ''isPrototypeOf'', ''propertyIsEnumerable'',
      ''toLocaleString'', ''toString'', ''valueOf'', ''__proto__'', ''__defineGetter__'',
      ''__defineSetter__'', ''__lookupGetter__'', ''__lookupSetter__'']"

datatype note_value = Undefined | Own string | Inherited

definition note_at :: "(string \<times> string) list \<Rightarrow> string \<Rightarrow> note_value" where
  "note_at notes i =
     (case map_of notes i of
        Some c \<Rightarrow> Own c
      | None \<Rightarrow> if i \<in> set Object_prototype then Inherited else Undefined)"

subsection \<open>Handlers that edit the graph\<close>

definition onDeleteNode :: "session \<Rightarrow> session" where
  "onDeleteNode s =
     (if \<not> truthy_str (selectedNodeId s) then s
      else
        (let sel = the (selectedNodeId s) in
         s\<lparr>nodes := filter (\<lambda>n. node_id n \<noteq> sel) (nodes s),
           edges := filter (\<lambda>e. source e \<noteq> sel \<and> target e \<noteq> sel) (edges s),
           selectedNodeId := None,
           nodeNotes := AList.delete sel (nodeNotes s)\<rparr>))"

definition onDeleteEdge :: "session \<Rightarrow> session" where
  "onDeleteEdge s =
     (if \<not> truthy_str (selectedEdgeId s) then s
      else
        s\<lparr>edges := filter (\<lambda>e. edge_id e \<noteq> the (selectedEdgeId s)) (edges s),
          selectedEdgeId := None\<rparr>)"

text \<open>\<open>{ ...edge.data, directed }\<close>: the spread of an absent \<open>data\<close> adds nothing.\<close>

definition with_directed :: "EdgeData option \<Rightarrow> bool \<Rightarrow> EdgeData" where
  "with_directed d b =
     (case d of None \<Rightarrow> \<lparr>directed = Some b\<rparr> | Some d' \<Rightarrow> d'\<lparr>directed := Some b\<rparr>)"

definition toggle_edge :: "string \<Rightarrow> edge \<Rightarrow> edge" where
  "toggle_edge sel e =
     (if edge_id e \<noteq> sel then e
      else
        (let d = \<not> isDirected e in
         e\<lparr>edge_data := Some (with_directed (edge_data e) d),
           markerEnd := (if d then Some arrowMarker else None)\<rparr>))"

definition onToggleEdgeDirection :: "session \<Rightarrow> session" where
  "onToggleEdgeDirection s =
     (if \<not> truthy_str (selectedEdgeId s) then s
      else s\<lparr>edges := map (toggle_edge (the (selectedEdgeId s))) (edges s)\<rparr>)"

text \<open>
  \<open>updateSelectedNode(patch)\<close>: the two callers pass \<open>{label: v}\<close> and \<open>{tagColor: v}\<close>.
\<close>

datatype patch = PatchLabel string | PatchTagColor string

fun apply_patch :: "patch \<Rightarrow> GraphNodeData \<Rightarrow> GraphNodeData" where
  "apply_patch (PatchLabel v) d = d\<lparr>label := Some v\<rparr>"
| "apply_patch (PatchTagColor v) d = d\<lparr>tagColor := Some v\<rparr>"

definition updateSelectedNode :: "patch \<Rightarrow> session \<Rightarrow> session" where
  "updateSelectedNode p s =
     (if \<not> truthy_str (selectedNodeId s) then s
      else
        s\<lparr>nodes :=
            map (\<lambda>n. if node_id n = the (selectedNodeId s)
                      then n\<lparr>node_data := apply_patch p (node_data n)\<rparr> else n)
              (nodes s)\<rparr>)"

subsection \<open>Opening a document\<close>

definition as_string :: "json option \<Rightarrow> js_error + string" where
  "as_string v = (case v of Some (JStr s) \<Rightarrow> Inr s | _ \<Rightarrow> Inl NotGraphJson)"

definition as_optional_string :: "json option \<Rightarrow> js_error + string option" where
  "as_optional_string v =
     (case v of None \<Rightarrow> Inr None | Some (JStr s) \<Rightarrow> Inr (Some s) | _ \<Rightarrow> Inl NotGraphJson)"

text \<open>\<open>edge.directed ?? true\<close>: \<open>undefined\<close> and \<open>null\<close> give \<open>true\<close>.\<close>

definition directed_or_true :: "json option \<Rightarrow> js_error + bool" where
  "directed_or_true v =
     (case v of
        None \<Rightarrow> Inr True
      | Some JNull \<Rightarrow> Inr True
      | Some (JBool b) \<Rightarrow> Inr b
      | _ \<Rightarrow> Inl NotGraphJson)"

text \<open>The callback of \<open>data.nodes.map\<close>: reading \<open>node.id\<close> of \<open>null\<close> throws.\<close>

definition loadNode :: "json \<Rightarrow> js_error + node" where
  "loadNode j =
     (if j = JNull then Inl TypeError
      else
        (case as_string (js_prop j ''id'') of
           Inl e \<Rightarrow> Inl e
         | Inr i \<Rightarrow>
             (case as_optional_string (js_prop j ''label'') of
                Inl e \<Rightarrow> Inl e
              | Inr l \<Rightarrow>
                  (case as_optional_string (js_prop j ''tagColor'') of
                     Inl e \<Rightarrow> Inl e
                   | Inr c \<Rightarrow>
                       Inr \<lparr>node_id = i, node_type = ''graphNode'', position = (0, 0),
                            node_data = \<lparr>label = l, tagColor = c\<rparr>\<rparr>))))"

text \<open>The callback of \<open>data.edges.map\<close>, with the index of the edge in the document.\<close>

definition loadEdge :: "nat \<times> json \<Rightarrow> js_error + edge" where
  "loadEdge ij =
     (let index = fst ij; j = snd ij in
      if j = JNull then Inl TypeError
      else
        (case as_string (js_prop j ''source'') of
           Inl e \<Rightarrow> Inl e
         | Inr src \<Rightarrow>
             (case as_string (js_prop j ''target'') of
                Inl e \<Rightarrow> Inl e
              | Inr tgt \<Rightarrow>
                  (case directed_or_true (js_prop j ''directed'') of
                     Inl e \<Rightarrow> Inl e
                   | Inr d \<Rightarrow>
                       Inr \<lparr>edge_id = ''e-'' @ src @ ''-'' @ tgt @ ''-'' @ show_nat index,
                            source = src, target = tgt,
                            edge_type = Some ''smoothstep'', style = Some defaultEdgeStyle,
                            edge_data = Some \<lparr>directed = Some d\<rparr>,
                            markerEnd = (if d then Some arrowMarker else None)\<rparr>))))"

text \<open>\<open>.map\<close> on a value that is no array is a call of \<open>undefined\<close>.\<close>

definition loadNodes :: "json \<Rightarrow> js_error + node list" where
  "loadNodes j = (case j of JArr xs \<Rightarrow> traverse loadNode xs | _ \<Rightarrow> Inl TypeError)"

definition loadEdges :: "json \<Rightarrow> js_error + edge list" where
  "loadEdges j =
     (case j of JArr xs \<Rightarrow> traverse loadEdge (enumerate 0 xs) | _ \<Rightarrow> Inl TypeError)"

text \<open>
  \<open>ensureTagsForColors\<close>. \<open>uuid k\<close> is the result of the \<open>k\<close>-th call of
  \<open>crypto.randomUUID()\<close>.
\<close>

definition ensureTagsForColors ::
  "(nat \<Rightarrow> string) \<Rightarrow> string option list \<Rightarrow> TagMeta list \<Rightarrow> TagMeta list" where
  "ensureTagsForColors uuid colors current =
     (let additions =
        map (\<lambda>(index, c).
               \<lparr>tag_id = ''tag-'' @ uuid index,
                name = ''Tag '' @ show_nat (length current + index + 1),
                color = the c\<rparr>)
          (enumerate 0
             (filter (\<lambda>c. truthy_str c \<and> the c \<notin> set (map color current)) colors))
      in if additions \<noteq> [] then current @ additions else current)"

text \<open>
  \<open>handleOpen\<close>. Its argument is how \<open>openGraph()\<close> settled: rejected, resolved with
  \<open>null\<close> (the dialog was cancelled) or with the payload. The result is what the handler
  threw, if anything, and the session it leaves. \<open>k\<close> is the number of the call of
  \<open>dagre.layout\<close> that its \<open>layoutGraph\<close> makes.
\<close>

definition handleOpen ::
  "'g platform \<Rightarrow> (nat \<Rightarrow> string) \<Rightarrow> nat \<Rightarrow> js_error + GraphFilePayload option \<Rightarrow> session
     \<Rightarrow> js_error option \<times> session" where
  "handleOpen pf uuid k opened s =
     (case opened of
        Inl e \<Rightarrow> (Some e, s)
      | Inr None \<Rightarrow> (None, s)
      | Inr (Some result) \<Rightarrow>
          (case parseGraphJson pf (payload_data result) of
             Inl e \<Rightarrow> (Some e, s)
           | Inr d \<Rightarrow>
               (case loadNodes (json_nodes d) of
                  Inl e \<Rightarrow> (Some e, s)
                | Inr loadedNodes \<Rightarrow>
                    (case loadEdges (json_edges d) of
                       Inl e \<Rightarrow> (Some e, s)
                     | Inr loadedEdges \<Rightarrow>
                         (case layoutGraph pf k loadedNodes loadedEdges of
                            Inl e \<Rightarrow> (Some e, s)
                          | Inr placed \<Rightarrow>
                              (None,
                               s\<lparr>nodes := placed,
                                 edges := loadedEdges,
                                 tags := ensureTagsForColors uuid
                                           (map (\<lambda>n. tagColor (node_data n)) loadedNodes) (tags s),
                                 graphFile := Some \<lparr>filePath = filePath result,
                                                    baseDir = baseDir result\<rparr>,
                                 selectedNodeId := None,
                                 nodeNotes := [],
                                 status := ''Opened '' @ filePath result\<rparr>))))))"

definition handleNew :: "'g platform \<Rightarrow> nat \<Rightarrow> session \<Rightarrow> js_error option \<times> session" where
  "handleNew pf k s =
     (case layoutGraph pf k initialNodes initialEdges of
        Inl e \<Rightarrow> (Some e, s)
      | Inr placed \<Rightarrow>
          (None,
           s\<lparr>nodes := placed, edges := initialEdges, graphFile := None,
             selectedNodeId := None, nodeNotes := [], selectedTagColor := None,
             status := ''New graph''\<rparr>))"

subsection \<open>Saving\<close>

text \<open>The calls of \<open>window.graphAPI\<close>, as they go to the main process.\<close>

datatype ipc =
    OpenGraph
  | SaveGraph string string
  | SaveGraphAs string
  | ReadNodeFile string string
  | WriteNodeFile string string string
  | WriteInherited string string

text \<open>
  \<open>WriteNodeFile b i t\<close> is \<open>writeNodeFile\<close> with the base directory, the node id and a
  string as content. \<open>WriteInherited b i\<close> is the same call with a content that is no
  string: what \<open>nodeNotes\<close> inherits under the name \<open>i\<close>.
\<close>

text \<open>
  One run of \<open>handleSave\<close>: the calls it issued, in order; what it threw, if anything;
  the last value it gave \<open>setGraphFile\<close> and the value it gave \<open>setStatus\<close>, if it
  called them.
\<close>

record save_run =
  issued :: "ipc list"
  thrown :: "js_error option"
  bound :: "GraphFile option"
  said :: "string option"

text \<open>
  The call for one node: its content is \<open>nodeNotes[node.id] ?? ''\<close>, the empty string
  where the read gives \<open>undefined\<close>.
\<close>

definition note_write :: "string \<Rightarrow> (string \<times> string) list \<Rightarrow> string \<Rightarrow> ipc" where
  "note_write b notes i =
     (case note_at notes i of
        Undefined \<Rightarrow> WriteNodeFile b i []
      | Own t \<Rightarrow> WriteNodeFile b i t
      | Inherited \<Rightarrow> WriteInherited b i)"

text \<open>
  The note files \<open>handleSave\<close> writes, under \<open>if (baseDir)\<close>: one call for every node.
  The calls are made by \<open>nodes.map\<close> inside \<open>Promise.all\<close>: every call is issued before
  any is awaited.
\<close>

definition note_writes :: "session \<Rightarrow> string option \<Rightarrow> ipc list" where
  "note_writes c bd =
     (if truthy_str bd
      then map (\<lambda>n. note_write (the bd) (nodeNotes c) (node_id n)) (nodes c)
      else [])"

text \<open>
  \<open>handleSave\<close> from the line that builds the payload. \<open>c\<close> is the render the function
  belongs to: it reads the \<open>nodes\<close>, \<open>edges\<close>, \<open>graphFile\<close> and \<open>nodeNotes\<close> of that
  render. \<open>ok call\<close> says whether the main process resolves the call.
\<close>

definition persist ::
  "'g platform \<Rightarrow> (ipc \<Rightarrow> bool) \<Rightarrow> session \<Rightarrow> string \<Rightarrow> string option \<Rightarrow> save_run" where
  "persist pf ok c fp baseDirOverride =
     (let save = SaveGraph fp (JSON_stringify pf (createGraphJson (nodes c) (edges c))) in
      if \<not> ok save then \<lparr>issued = [save], thrown = Some IOError, bound = None, said = None\<rparr>
      else
        (let writes = note_writes c (case baseDirOverride of
                                       Some b \<Rightarrow> Some b
                                     | None \<Rightarrow> map_option baseDir (graphFile c))
         in if list_all ok writes
            then \<lparr>issued = save # writes, thrown = None, bound = None,
                  said = Some (''Saved '' @ fp)\<rparr>
            else \<lparr>issued = save # writes, thrown = Some IOError, bound = None, said = None\<rparr>))"

text \<open>
  \<open>handleSave\<close> and \<open>handleSaveAs\<close> call each other. \<open>answers\<close> are the results of the
  save dialogs still to come (\<open>None\<close>: cancelled); with none left the dialog stays open.
\<close>

function handleSave ::
  "'g platform \<Rightarrow> (ipc \<Rightarrow> bool) \<Rightarrow> GraphFile option list \<Rightarrow> session
     \<Rightarrow> string option \<Rightarrow> string option \<Rightarrow> save_run"
and handleSaveAs ::
  "'g platform \<Rightarrow> (ipc \<Rightarrow> bool) \<Rightarrow> GraphFile option list \<Rightarrow> session \<Rightarrow> save_run" where
  "handleSave pf ok answers c filePathOverride baseDirOverride =
     (let fp = (case filePathOverride of
                  Some f \<Rightarrow> Some f
                | None \<Rightarrow> map_option filePath (graphFile c))
      in if \<not> truthy_str fp then handleSaveAs pf ok answers c
         else persist pf ok c (the fp) baseDirOverride)"
| "handleSaveAs pf ok [] c =
     \<lparr>issued = [SaveGraphAs ''graph''],
      thrown = (if ok (SaveGraphAs ''graph'') then None else Some IOError),
      bound = None, said = None\<rparr>"
| "handleSaveAs pf ok (a # answers) c =
     (if \<not> ok (SaveGraphAs ''graph'')
      then \<lparr>issued = [SaveGraphAs ''graph''], thrown = Some IOError, bound = None, said = None\<rparr>
      else
        (case a of
           None \<Rightarrow> \<lparr>issued = [SaveGraphAs ''graph''], thrown = None, bound = None, said = None\<rparr>
         | Some r \<Rightarrow>
             (let run = handleSave pf ok answers c (Some (filePath r)) (Some (baseDir r)) in
              run\<lparr>issued := SaveGraphAs ''graph'' # issued run,
                  bound := (case bound run of None \<Rightarrow> Some r | Some r' \<Rightarrow> Some r')\<rparr>)))"
  by pat_completeness auto
termination
  by (relation "measure (\<lambda>x. case x of
          Inl (pf, ok, answers, c, f, b) \<Rightarrow> 2 * length answers + 1
        | Inr (pf, ok, answers, c) \<Rightarrow> 2 * length answers)")
    auto

declare handleSave.simps [simp del] handleSaveAs.simps [simp del]

subsection \<open>The main process (electron/main.js)\<close>

text \<open>
  The files of the disk, by path. \<open>ensureDir\<close> makes directories, which this map does
  not hold; a call that the file system fails is one that \<open>ok\<close> above refuses.
\<close>

type_synonym disk = "(string \<times> string) list"

definition node_path :: "'g platform \<Rightarrow> string \<Rightarrow> string \<Rightarrow> string" where
  "node_path pf b i = path_join pf [path_join pf [b, ''nodes''], i @ ''.md'']"

text \<open>The handler of \<open>node:read\<close>: a file that does not exist reads as the empty string.\<close>

definition node_read :: "'g platform \<Rightarrow> string \<Rightarrow> string \<Rightarrow> disk \<Rightarrow> string" where
  "node_read pf b i d = (case map_of d (node_path pf b i) of None \<Rightarrow> [] | Some t \<Rightarrow> t)"

text \<open>
  The handlers of \<open>node:write\<close> and \<open>graph:save\<close>. The content of \<open>node:write\<close> goes to
  \<open>fs.writeFile\<close> as a string; a call whose content is no string writes no file here.
\<close>

definition node_write :: "'g platform \<Rightarrow> string \<Rightarrow> string \<Rightarrow> string \<Rightarrow> disk \<Rightarrow> disk" where
  "node_write pf b i t d = AList.update (node_path pf b i) t d"

definition graph_save :: "string \<Rightarrow> string \<Rightarrow> disk \<Rightarrow> disk" where
  "graph_save p t d = AList.update p t d"

fun serve :: "'g platform \<Rightarrow> ipc \<Rightarrow> disk \<Rightarrow> disk" where
  "serve pf (SaveGraph p t) d = graph_save p t d"
| "serve pf (WriteNodeFile b i t) d = node_write pf b i t d"
| "serve pf _ d = d"

subsection \<open>The other handlers\<close>

definition createNode :: "string \<Rightarrow> string \<Rightarrow> string \<Rightarrow> node" where
  "createNode uuid l c =
     \<lparr>node_id = ''node-'' @ uuid, node_type = ''graphNode'', position = (100, 100),
      node_data = \<lparr>label = Some l, tagColor = Some c\<rparr>\<rparr>"

definition createEdge :: "string \<Rightarrow> string \<Rightarrow> string \<Rightarrow> bool \<Rightarrow> edge" where
  "createEdge src tgt uuid d =
     \<lparr>edge_id = ''e-'' @ src @ ''-'' @ tgt @ ''-'' @ uuid, source = src, target = tgt,
      edge_type = Some ''smoothstep'', style = Some defaultEdgeStyle,
      edge_data = Some \<lparr>directed = Some d\<rparr>,
      markerEnd = (if d then Some arrowMarker else None)\<rparr>"

definition onAddNode :: "string \<Rightarrow> session \<Rightarrow> session" where
  "onAddNode uuid s =
     s\<lparr>nodes := nodes s @
         [createNode uuid ''New node'' (case tags s of [] \<Rightarrow> ''#38BDF8'' | t # _ \<Rightarrow> color t)]\<rparr>"

text \<open>
  \<open>onConnect\<close> gives \<open>setEdges\<close> what \<open>addEdge\<close> returns. \<open>None\<close>: that is the array the
  state holds already, and a state setter that is given the state's own value changes
  nothing.
\<close>

definition onConnect ::
  "'g platform \<Rightarrow> string \<Rightarrow> string \<Rightarrow> string \<Rightarrow> session \<Rightarrow> session option" where
  "onConnect pf src tgt uuid s =
     (case addEdge pf (createEdge src tgt uuid True) (edges s) of
        None \<Rightarrow> None
      | Some es \<Rightarrow> Some (s\<lparr>edges := es\<rparr>))"

definition onAutoLayout :: "'g platform \<Rightarrow> nat \<Rightarrow> session \<Rightarrow> js_error option \<times> session" where
  "onAutoLayout pf k s =
     (case layoutGraph pf k (nodes s) (edges s) of
        Inl e \<Rightarrow> (Some e, s)
      | Inr placed \<Rightarrow> (None, s\<lparr>nodes := placed\<rparr>))"

text \<open>\<open>String.prototype.trim\<close>, on 8-bit characters.\<close>

definition js_space :: "char \<Rightarrow> bool" where
  "js_space c = ((of_char c :: nat) \<in> {9, 10, 11, 12, 13, 32, 160})"

definition trim :: "string \<Rightarrow> string" where
  "trim s = rev (dropWhile js_space (rev (dropWhile js_space s)))"

definition onAddTag :: "string \<Rightarrow> session \<Rightarrow> session" where
  "onAddTag uuid s =
     (let trimmed = trim (newTagName s) in
      if trimmed = [] then s\<lparr>status := ''Tag name is required.''\<rparr>
      else if list_ex (\<lambda>t. color t = newTagColor s) (tags s)
      then s\<lparr>status := ''Each tag color must be unique.''\<rparr>
      else
        s\<lparr>tags := tags s @ [\<lparr>tag_id = ''tag-'' @ uuid, name = trimmed, color = newTagColor s\<rparr>],
          newTagName := [],
          status := ''Added tag '' @ [CHR 0x22] @ trimmed @ [CHR 0x22] @ ''.''\<rparr>)"

text \<open>\<open>nodes.find((node) => node.id === selectedNodeId) || null\<close>\<close>

definition selectedNode :: "session \<Rightarrow> node option" where
  "selectedNode s =
     (case selectedNodeId s of
        None \<Rightarrow> None
      | Some i \<Rightarrow> find (\<lambda>n. node_id n = i) (nodes s))"

text \<open>The \<open>onChange\<close> of the note's text area, which is shown while \<open>selectedNode\<close> is.\<close>

definition onNoteInput :: "string \<Rightarrow> session \<Rightarrow> session" where
  "onNoteInput v s =
     (case selectedNodeId s of
        None \<Rightarrow> s
      | Some i \<Rightarrow> s\<lparr>nodeNotes := AList.update i v (nodeNotes s)\<rparr>)"

subsection \<open>The component as a state machine\<close>

text \<open>
  A world is the component between two events: the state of its last render; the
  timeouts that are scheduled, each with its handle and the render whose \<open>handleSave\<close>
  its callback calls; the handle in \<open>saveTimeout.current\<close>; the handle the next
  \<open>setTimeout\<close> returns (handles are positive); the \<open>readNodeFile\<close> calls that have not
  settled, each with the node id its continuation will store under; and the calls sent
  to the main process so far.

  An event is one run of a handler, its awaited calls included. The state setters
  that one run of a handler calls take effect together, in one render (React 18
  batches them, after an \<open>await\<close> too). An effect runs after a render
  in which one of its dependencies changed: an array or object when a setter was
  given a new one, a string when its value differs. The handlers build a new array
  with \<open>filter\<close>, \<open>map\<close> or a spread on every run, and so do \<open>applyNodeChanges\<close> and
  \<open>applyEdgeChanges\<close>; \<open>addEdge\<close> alone may return the array it was given, and then
  React renders nothing and no effect runs.
\<close>

record world =
  view :: session
  timers :: "(nat \<times> session) list"
  saveTimeout :: "nat option"
  next_handle :: nat
  reading :: "(string \<times> string) list"
  wire :: "ipc list"

text \<open>\<open>window.clearTimeout(saveTimeout.current)\<close>, under \<open>if (saveTimeout.current)\<close>.\<close>

definition clear_saveTimeout :: "world \<Rightarrow> (nat \<times> session) list" where
  "clear_saveTimeout w =
     (case saveTimeout w of
        None \<Rightarrow> timers w
      | Some t \<Rightarrow> if t = 0 then timers w else filter (\<lambda>p. fst p \<noteq> t) (timers w))"

text \<open>
  The effect on \<open>[nodes, edges, graphFile?.filePath]\<close>. The callback it schedules calls
  the \<open>handleSave\<close> of the render the effect ran in.
\<close>

definition autosave_effect :: "world \<Rightarrow> world" where
  "autosave_effect w =
     (if \<not> truthy_str (map_option filePath (graphFile (view w))) then w
      else
        w\<lparr>timers := clear_saveTimeout w @ [(next_handle w, view w)],
          saveTimeout := Some (next_handle w),
          next_handle := Suc (next_handle w)\<rparr>)"

text \<open>The effect on \<open>[graphFile?.baseDir, nodeNotes, selectedNodeId]\<close>.\<close>

definition note_effect :: "world \<Rightarrow> world" where
  "note_effect w =
     (let s = view w in
      if \<not> truthy_str (map_option baseDir (graphFile s)) \<or> \<not> truthy_str (selectedNodeId s)
      then w
      else if note_at (nodeNotes s) (the (selectedNodeId s)) \<noteq> Undefined then w
      else
        w\<lparr>reading := reading w @ [(baseDir (the (graphFile s)), the (selectedNodeId s))],
          wire := wire w @ [ReadNodeFile (baseDir (the (graphFile s))) (the (selectedNodeId s))]\<rparr>)"

text \<open>
  A render with the new state \<open>s'\<close>. \<open>graph_set\<close>: \<open>setNodes\<close> or \<open>setEdges\<close> was called;
  \<open>notes_set\<close>: \<open>setNodeNotes\<close> was.
\<close>

definition render :: "session \<Rightarrow> bool \<Rightarrow> bool \<Rightarrow> world \<Rightarrow> world" where
  "render s' graph_set notes_set w =
     (let s = view w;
          w1 = w\<lparr>view := s'\<rparr>;
          w2 = (if graph_set \<or> map_option filePath (graphFile s') \<noteq> map_option filePath (graphFile s)
                then autosave_effect w1 else w1)
      in if notes_set \<or> map_option baseDir (graphFile s') \<noteq> map_option baseDir (graphFile s)
            \<or> selectedNodeId s' \<noteq> selectedNodeId s
         then note_effect w2 else w2)"

text \<open>
  What can happen to the component: the buttons of the top bar, the callbacks of the
  canvas (\<open>NodesChange f\<close> and \<open>EdgesChange f gone\<close> carry \<open>applyNodeChanges(changes, _)\<close>
  and \<open>applyEdgeChanges(changes, _)\<close>; \<open>gone\<close> says that a change removes the selected
  edge), the inputs of the side bar, a scheduled timeout that fires, and a
  \<open>readNodeFile\<close> call that settles. The save events carry the answers of the save
  dialogs they may open, and the events whose handler calls \<open>layoutGraph\<close> carry the
  number of that call of \<open>dagre.layout\<close>.
\<close>

datatype event =
    New nat
  | Open "js_error + GraphFilePayload option" "nat \<Rightarrow> string" nat
  | Save "GraphFile option list"
  | SaveAs "GraphFile option list"
  | AddNode string
  | DeleteNode
  | ToggleDirection
  | DeleteEdge
  | AutoLayout nat
  | Connect string string string
  | NodesChange "node list \<Rightarrow> node list"
  | EdgesChange "edge list \<Rightarrow> edge list" bool
  | NodeClick string
  | EdgeClick string
  | EditLabel string
  | EditTagColor string
  | NoteInput string
  | TagName string
  | TagColor string
  | AddTag string
  | Focus "string option"
  | Timeout nat "GraphFile option list"
  | ReadDone nat string
  | ReadFailed nat

text \<open>
  The renders a run of \<open>handleSave\<close> causes: one for \<open>setGraphFile\<close>, when \<open>handleSaveAs\<close>
  called it, and one for \<open>setStatus\<close>.
\<close>

definition after_save :: "save_run \<Rightarrow> world \<Rightarrow> world" where
  "after_save run w =
     (let w1 = w\<lparr>wire := wire w @ issued run\<rparr>;
          w2 = (case bound run of
                  None \<Rightarrow> w1
                | Some r \<Rightarrow> render ((view w1)\<lparr>graphFile := Some r\<rparr>) False False w1)
      in case said run of
           None \<Rightarrow> w2
         | Some t \<Rightarrow> render ((view w2)\<lparr>status := t\<rparr>) False False w2)"

fun step :: "'g platform \<Rightarrow> (ipc \<Rightarrow> bool) \<Rightarrow> event \<Rightarrow> world \<Rightarrow> world" where
  "step pf ok (New k) w =
     (case handleNew pf k (view w) of
        (None, s') \<Rightarrow> render s' True True w
      | (Some e, s') \<Rightarrow> w)"
| "step pf ok (Open opened uuid k) w =
     (let w1 = w\<lparr>wire := wire w @ [OpenGraph]\<rparr> in
      case opened of
        Inr (Some result) \<Rightarrow>
          (case handleOpen pf uuid k opened (view w) of
             (None, s') \<Rightarrow> render s' True True w1
           | (Some e, s') \<Rightarrow> w1)
      | _ \<Rightarrow> w1)"
| "step pf ok (Save answers) w = after_save (handleSave pf ok answers (view w) None None) w"
| "step pf ok (SaveAs answers) w = after_save (handleSaveAs pf ok answers (view w)) w"
| "step pf ok (AddNode uuid) w = render (onAddNode uuid (view w)) True False w"
| "step pf ok DeleteNode w =
     (if truthy_str (selectedNodeId (view w)) then render (onDeleteNode (view w)) True True w
      else w)"
| "step pf ok ToggleDirection w =
     (if truthy_str (selectedEdgeId (view w))
      then render (onToggleEdgeDirection (view w)) True False w else w)"
| "step pf ok DeleteEdge w =
     (if truthy_str (selectedEdgeId (view w)) then render (onDeleteEdge (view w)) True False w
      else w)"
| "step pf ok (AutoLayout k) w =
     (case onAutoLayout pf k (view w) of
        (None, s') \<Rightarrow> render s' True False w
      | (Some e, s') \<Rightarrow> w)"
| "step pf ok (Connect src tgt uuid) w =
     (case onConnect pf src tgt uuid (view w) of
        None \<Rightarrow> w
      | Some s' \<Rightarrow> render s' True False w)"
| "step pf ok (NodesChange f) w = render ((view w)\<lparr>nodes := f (nodes (view w))\<rparr>) True False w"
| "step pf ok (EdgesChange f gone) w =
     render ((view w)\<lparr>edges := f (edges (view w)),
               selectedEdgeId := (if gone then None else selectedEdgeId (view w))\<rparr>) True False w"
| "step pf ok (NodeClick i) w =
     render ((view w)\<lparr>selectedNodeId := Some i, selectedEdgeId := None\<rparr>) False False w"
| "step pf ok (EdgeClick i) w =
     render ((view w)\<lparr>selectedEdgeId := Some i, selectedNodeId := None\<rparr>) False False w"
| "step pf ok (EditLabel v) w =
     (if selectedNode (view w) \<noteq> None \<and> truthy_str (selectedNodeId (view w))
      then render (updateSelectedNode (PatchLabel v) (view w)) True False w else w)"
| "step pf ok (EditTagColor v) w =
     (if selectedNode (view w) \<noteq> None \<and> truthy_str (selectedNodeId (view w))
      then render (updateSelectedNode (PatchTagColor v) (view w)) True False w else w)"
| "step pf ok (NoteInput v) w =
     (if selectedNode (view w) \<noteq> None then render (onNoteInput v (view w)) False True w else w)"
| "step pf ok (TagName v) w = render ((view w)\<lparr>newTagName := v\<rparr>) False False w"
| "step pf ok (TagColor v) w = render ((view w)\<lparr>newTagColor := v\<rparr>) False False w"
| "step pf ok (AddTag uuid) w = render (onAddTag uuid (view w)) False False w"
| "step pf ok (Focus c) w = render ((view w)\<lparr>selectedTagColor := c\<rparr>) False False w"
| "step pf ok (Timeout t answers) w =
     (case map_of (timers w) t of
        None \<Rightarrow> w
      | Some c \<Rightarrow>
          after_save (handleSave pf ok answers c None None)
            (w\<lparr>timers := filter (\<lambda>p. fst p \<noteq> t) (timers w)\<rparr>))"
| "step pf ok (ReadDone k content) w =
     (if k < length (reading w)
      then render ((view w)\<lparr>nodeNotes := AList.update (snd (reading w ! k)) content
                                            (nodeNotes (view w))\<rparr>) False True
             (w\<lparr>reading := take k (reading w) @ drop (Suc k) (reading w)\<rparr>)
      else w)"
| "step pf ok (ReadFailed k) w =
     (if k < length (reading w)
      then w\<lparr>reading := take k (reading w) @ drop (Suc k) (reading w)\<rparr>
      else w)"

text \<open>A run: the events one after the other.\<close>

definition run :: "'g platform \<Rightarrow> (ipc \<Rightarrow> bool) \<Rightarrow> event list \<Rightarrow> world \<Rightarrow> world" where
  "run pf ok evs w = fold (step pf ok) evs w"

text \<open>The world after the component mounted: no effect has done anything yet.\<close>

definition initial_world :: "session \<Rightarrow> world" where
  "initial_world s =
     \<lparr>view = s, timers = [], saveTimeout = None, next_handle = 1, reading = [], wire = []\<rparr>"

subsection \<open>What the properties speak of\<close>

fun is_SaveGraph :: "ipc \<Rightarrow> bool" where
  "is_SaveGraph (SaveGraph p t) = True"
| "is_SaveGraph _ = False"

fun is_WriteNodeFile :: "ipc \<Rightarrow> bool" where
  "is_WriteNodeFile (WriteNodeFile b i t) = True"
| "is_WriteNodeFile (WriteInherited b i) = True"
| "is_WriteNodeFile _ = False"

text \<open>The graph files and the note files written so far.\<close>

definition saves :: "world \<Rightarrow> ipc list" where
  "saves w = filter is_SaveGraph (wire w)"

definition note_calls :: "world \<Rightarrow> ipc list" where
  "note_calls w = filter is_WriteNodeFile (wire w)"

text \<open>
  The timeouts of a world are those of the autosave effect: each is the one whose
  handle \<open>saveTimeout.current\<close> holds, and handles are positive and below the next one.
  The world after mounting is so, and every event keeps it so.
\<close>

definition well_timed :: "world \<Rightarrow> bool" where
  "well_timed w \<longleftrightarrow>
     next_handle w \<noteq> 0
     \<and> list_all (\<lambda>p. saveTimeout w = Some (fst p) \<and> fst p \<noteq> 0 \<and> fst p < next_handle w) (timers w)"

text \<open>
  An event that sets \<open>nodes\<close> or \<open>edges\<close> to a new array and leaves the file binding: a
  handler that edits the graph, where its guard lets it through and, for \<open>onConnect\<close>,
  where \<open>addEdge\<close> adds the edge.
\<close>

fun mutation :: "'g platform \<Rightarrow> event \<Rightarrow> world \<Rightarrow> bool" where
  "mutation pf (AddNode uuid) w = True"
| "mutation pf DeleteNode w = truthy_str (selectedNodeId (view w))"
| "mutation pf ToggleDirection w = truthy_str (selectedEdgeId (view w))"
| "mutation pf DeleteEdge w = truthy_str (selectedEdgeId (view w))"
| "mutation pf (AutoLayout k) w = (fst (onAutoLayout pf k (view w)) = None)"
| "mutation pf (Connect src tgt uuid) w = (onConnect pf src tgt uuid (view w) \<noteq> None)"
| "mutation pf (NodesChange f) w = True"
| "mutation pf (EdgesChange f gone) w = True"
| "mutation pf (EditLabel v) w =
     (selectedNode (view w) \<noteq> None \<and> truthy_str (selectedNodeId (view w)))"
| "mutation pf (EditTagColor v) w =
     (selectedNode (view w) \<noteq> None \<and> truthy_str (selectedNodeId (view w)))"
| "mutation pf _ w = False"

text \<open>A run of such events, each a mutation in the world it meets.\<close>

fun mutations :: "'g platform \<Rightarrow> (ipc \<Rightarrow> bool) \<Rightarrow> event list \<Rightarrow> world \<Rightarrow> bool" where
  "mutations pf ok [] w = True"
| "mutations pf ok (e # es) w = (mutation pf e w \<and> mutations pf ok es (step pf ok e w))"


text \<open>The node ids that were clicked.\<close>

fun clicked :: "event \<Rightarrow> string set" where
  "clicked (NodeClick i) = {i}"
| "clicked _ = {}"

definition clicks :: "event list \<Rightarrow> string set" where
  "clicks evs = (\<Union>e \<in> set evs. clicked e)"

text \<open>The node id of a call that writes a note file with content.\<close>

fun written :: "ipc \<Rightarrow> string set" where
  "written (WriteNodeFile b i t) = (if t = [] then {} else {i})"
| "written _ = {}"

text \<open>
  The node ids a world holds a note for: the selected node, the notes in memory, the
  reads in flight, the notes that a scheduled save will write, and the note files
  written with content so far.
\<close>

definition held :: "world \<Rightarrow> string set" where
  "held w =
     set_option (selectedNodeId (view w))
     \<union> fst ` set (nodeNotes (view w))
     \<union> snd ` set (reading w)
     \<union> (\<Union>p \<in> set (timers w). fst ` set (nodeNotes (snd p)))
     \<union> (\<Union>c \<in> set (wire w). written c)"

subsection \<open>A reference platform\<close>

text \<open>
  One platform to run the program on: a parser and a printer of JSON texts, a graph
  with a layout that puts its nodes in one row, and a \<open>path.join\<close> that joins with
  slashes. A string is a list of 8-bit characters, so of the escapes \<open>\uXXXX\<close> the
  parser reads those with \<open>XX = 00\<close>. The printer writes as \<open>JSON.stringify(v, null, 2)\<close> does:
  two blanks a level, one entry a line; it writes a number in plain decimal notation
  (the program writes none).
\<close>

definition is_ws :: "char \<Rightarrow> bool" where
  "is_ws c = (c = CHR '' '' \<or> c = CHR 0x0A \<or> c = CHR 0x0D \<or> c = CHR 0x09)"

definition skip_ws :: "string \<Rightarrow> string" where
  "skip_ws s = dropWhile is_ws s"

definition is_digit :: "char \<Rightarrow> bool" where
  "is_digit c = (48 \<le> (of_char c :: nat) \<and> (of_char c :: nat) \<le> 57)"

definition digit_val :: "char \<Rightarrow> nat" where
  "digit_val c = of_char c - 48"

definition hex_val :: "char \<Rightarrow> nat option" where
  "hex_val c =
     (let n = (of_char c :: nat) in
      if 48 \<le> n \<and> n \<le> 57 then Some (n - 48)
      else if 65 \<le> n \<and> n \<le> 70 then Some (n - 55)
      else if 97 \<le> n \<and> n \<le> 102 then Some (n - 87)
      else None)"

definition unescape :: "char \<Rightarrow> char option" where
  "unescape e =
     (if e = CHR 0x22 then Some (CHR 0x22)
      else if e = CHR 0x5C then Some (CHR 0x5C)
      else if e = CHR ''/'' then Some (CHR ''/'')
      else if e = CHR ''b'' then Some (CHR 0x08)
      else if e = CHR ''f'' then Some (CHR 0x0C)
      else if e = CHR ''n'' then Some (CHR 0x0A)
      else if e = CHR ''r'' then Some (CHR 0x0D)
      else if e = CHR ''t'' then Some (CHR 0x09)
      else None)"

fun parse_chars :: "string \<Rightarrow> (string \<times> string) option" where
  "parse_chars [] = None"
| "parse_chars (c # cs) =
     (if c = CHR 0x22 then Some ([], cs)
      else if c = CHR 0x5C then
        (case cs of
           [] \<Rightarrow> None
         | e # rest \<Rightarrow>
             (if e = CHR ''u'' then
                (case rest of
                   a # b # h # l # rest' \<Rightarrow>
                     (if a = CHR ''0'' \<and> b = CHR ''0'' then
                        (case (hex_val h, hex_val l) of
                           (Some x, Some y) \<Rightarrow>
                             map_option (\<lambda>(s, r). (char_of (16 * x + y) # s, r)) (parse_chars rest')
                         | _ \<Rightarrow> None)
                      else None)
                 | _ \<Rightarrow> None)
              else
                (case unescape e of
                   None \<Rightarrow> None
                 | Some u \<Rightarrow> map_option (\<lambda>(s, r). (u # s, r)) (parse_chars rest))))
      else if (of_char c :: nat) < 32 then None
      else map_option (\<lambda>(s, r). (c # s, r)) (parse_chars cs))"

fun parse_digits :: "string \<Rightarrow> nat \<Rightarrow> nat \<Rightarrow> nat \<times> nat \<times> string" where
  "parse_digits [] acc k = (acc, k, [])"
| "parse_digits (c # cs) acc k =
     (if is_digit c then parse_digits cs (10 * acc + digit_val c) (Suc k) else (acc, k, c # cs))"

definition parse_exponent :: "string \<Rightarrow> (int \<times> string) option" where
  "parse_exponent s =
     (case s of
        c # cs \<Rightarrow>
          (if c = CHR ''e'' \<or> c = CHR ''E'' then
             (let neg = (case cs of d # _ \<Rightarrow> d = CHR ''-'' | [] \<Rightarrow> False);
                  signed = (case cs of d # _ \<Rightarrow> d = CHR ''-'' \<or> d = CHR ''+'' | [] \<Rightarrow> False);
                  ds = (if signed then tl cs else cs)
              in case parse_digits ds 0 0 of
                   (n, k, rest) \<Rightarrow>
                     if k = 0 then None else Some (if neg then - int n else int n, rest))
           else Some (0, s))
      | [] \<Rightarrow> Some (0, s))"

definition parse_fraction :: "string \<Rightarrow> (real \<times> string) option" where
  "parse_fraction s =
     (case s of
        c # cs \<Rightarrow>
          (if c = CHR ''.'' then
             (case parse_digits cs 0 0 of
                (n, k, rest) \<Rightarrow> if k = 0 then None else Some (real n / 10 ^ k, rest))
           else Some (0, s))
      | [] \<Rightarrow> Some (0, s))"

definition parse_number :: "string \<Rightarrow> (real \<times> string) option" where
  "parse_number s =
     (let neg = (case s of c # _ \<Rightarrow> c = CHR ''-'' | [] \<Rightarrow> False);
          s1 = (if neg then tl s else s)
      in case parse_digits s1 0 0 of
           (n, k, rest) \<Rightarrow>
             if k = 0 \<or> (k > 1 \<and> hd s1 = CHR ''0'') then None
             else
               (case parse_fraction rest of
                  None \<Rightarrow> None
                | Some (f, rest') \<Rightarrow>
                    (case parse_exponent rest' of
                       None \<Rightarrow> None
                     | Some (e, rest'') \<Rightarrow>
                         Some ((if neg then -1 else 1) * (real n + f)
                                 * (if e < 0 then 1 / 10 ^ nat (- e) else 10 ^ nat e),
                               rest''))))"

definition expect :: "string \<Rightarrow> string \<Rightarrow> string option" where
  "expect lit s = (if take (length lit) s = lit then Some (drop (length lit) s) else None)"

fun parse_value :: "nat \<Rightarrow> string \<Rightarrow> (json \<times> string) option"
and parse_elements :: "nat \<Rightarrow> string \<Rightarrow> (json list \<times> string) option"
and parse_members :: "nat \<Rightarrow> string \<Rightarrow> ((string \<times> json) list \<times> string) option" where
  "parse_value 0 s = None"
| "parse_value (Suc fuel) s =
     (case skip_ws s of
        [] \<Rightarrow> None
      | c # cs \<Rightarrow>
          (if c = CHR ''n'' then map_option (Pair JNull) (expect ''ull'' cs)
           else if c = CHR ''t'' then map_option (Pair (JBool True)) (expect ''rue'' cs)
           else if c = CHR ''f'' then map_option (Pair (JBool False)) (expect ''alse'' cs)
           else if c = CHR 0x22 then map_option (\<lambda>(t, r). (JStr t, r)) (parse_chars cs)
           else if c = CHR ''['' then
             (case skip_ws cs of
                [] \<Rightarrow> None
              | d # ds \<Rightarrow>
                  (if d = CHR '']'' then Some (JArr [], ds)
                   else map_option (\<lambda>(xs, r). (JArr xs, r)) (parse_elements fuel (d # ds))))
           else if c = CHR ''{'' then
             (case skip_ws cs of
                [] \<Rightarrow> None
              | d # ds \<Rightarrow>
                  (if d = CHR ''}'' then Some (JObj [], ds)
                   else map_option (\<lambda>(kvs, r). (JObj kvs, r)) (parse_members fuel (d # ds))))
           else map_option (\<lambda>(x, r). (JNum x, r)) (parse_number (c # cs))))"
| "parse_elements 0 s = None"
| "parse_elements (Suc fuel) s =
     (case parse_value fuel s of
        None \<Rightarrow> None
      | Some (v, r) \<Rightarrow>
          (case skip_ws r of
             [] \<Rightarrow> None
           | c # cs \<Rightarrow>
               (if c = CHR '']'' then Some ([v], cs)
                else if c = CHR '','' then
                  map_option (\<lambda>(vs, r'). (v # vs, r')) (parse_elements fuel cs)
                else None)))"
| "parse_members 0 s = None"
| "parse_members (Suc fuel) s =
     (case skip_ws s of
        [] \<Rightarrow> None
      | q # qs \<Rightarrow>
          (if q \<noteq> CHR 0x22 then None
           else
             (case parse_chars qs of
                None \<Rightarrow> None
              | Some (k, r) \<Rightarrow>
                  (case skip_ws r of
                     [] \<Rightarrow> None
                   | c # cs \<Rightarrow>
                       (if c \<noteq> CHR '':'' then None
                        else
                          (case parse_value fuel cs of
                             None \<Rightarrow> None
                           | Some (v, r') \<Rightarrow>
                               (case skip_ws r' of
                                  [] \<Rightarrow> None
                                | e # es \<Rightarrow>
                                    (if e = CHR ''}'' then Some ([(k, v)], es)
                                     else if e = CHR '','' then
                                       map_option (\<lambda>(kvs, r''). ((k, v) # kvs, r''))
                                         (parse_members fuel es)
                                     else None))))))))"

text \<open>A repeated key keeps the place of its first occurrence and the value of its last.\<close>

fun last_wins :: "json \<Rightarrow> json" where
  "last_wins (JArr xs) = JArr (map last_wins xs)"
| "last_wins (JObj kvs) = JObj (fold (\<lambda>(k, v). AList.update k (last_wins v)) kvs [])"
| "last_wins v = v"

definition ref_parse :: "string \<Rightarrow> json option" where
  "ref_parse s =
     (case parse_value (Suc (length s)) s of
        None \<Rightarrow> None
      | Some (v, rest) \<Rightarrow> if skip_ws rest = [] then Some (last_wins v) else None)"

definition hex_digit :: "nat \<Rightarrow> char" where
  "hex_digit n = (if n < 10 then char_of (48 + n) else char_of (87 + n))"

definition quote_char :: "char \<Rightarrow> string" where
  "quote_char c =
     (if c = CHR 0x22 then [CHR 0x5C, CHR 0x22]
      else if c = CHR 0x5C then [CHR 0x5C, CHR 0x5C]
      else if c = CHR 0x08 then [CHR 0x5C, CHR ''b'']
      else if c = CHR 0x0C then [CHR 0x5C, CHR ''f'']
      else if c = CHR 0x0A then [CHR 0x5C, CHR ''n'']
      else if c = CHR 0x0D then [CHR 0x5C, CHR ''r'']
      else if c = CHR 0x09 then [CHR 0x5C, CHR ''t'']
      else if (of_char c :: nat) < 32 then
        [CHR 0x5C, CHR ''u'', CHR ''0'', CHR ''0'',
         hex_digit ((of_char c :: nat) div 16), hex_digit ((of_char c :: nat) mod 16)]
      else [c])"

definition quote :: "string \<Rightarrow> string" where
  "quote s = CHR 0x22 # concat (map quote_char s) @ [CHR 0x22]"

definition indent :: "nat \<Rightarrow> string" where
  "indent l = replicate (2 * l) (CHR '' '')"

fun frac_digits :: "nat \<Rightarrow> real \<Rightarrow> string" where
  "frac_digits 0 r = []"
| "frac_digits (Suc n) r =
     (if r = 0 then []
      else digit_char (nat \<lfloor>r * 10\<rfloor>) # frac_digits n (r * 10 - of_int \<lfloor>r * 10\<rfloor>))"

definition show_number :: "real \<Rightarrow> string" where
  "show_number r =
     (let a = \<bar>r\<bar>; f = frac_digits 17 (a - of_int \<lfloor>a\<rfloor>) in
      (if r < 0 then ''-'' else []) @ show_nat (nat \<lfloor>a\<rfloor>) @ (if f = [] then [] else CHR ''.'' # f))"

function ser :: "nat \<Rightarrow> json \<Rightarrow> string"
and ser_elements :: "nat \<Rightarrow> json list \<Rightarrow> string"
and ser_members :: "nat \<Rightarrow> (string \<times> json) list \<Rightarrow> string" where
  "ser l JNull = ''null''"
| "ser l (JBool b) = (if b then ''true'' else ''false'')"
| "ser l (JNum r) = show_number r"
| "ser l (JStr s) = quote s"
| "ser l (JArr xs) =
     (if xs = [] then ''[]''
      else CHR ''['' # CHR 0x0A # ser_elements (Suc l) xs @ CHR 0x0A # indent l @ '']'')"
| "ser l (JObj kvs) =
     (if kvs = [] then ''{}''
      else CHR ''{'' # CHR 0x0A # ser_members (Suc l) kvs @ CHR 0x0A # indent l @ ''}'')"
| "ser_elements l [] = []"
| "ser_elements l (x # xs) =
     indent l @ ser l x @ (if xs = [] then [] else CHR '','' # CHR 0x0A # ser_elements l xs)"
| "ser_members l [] = []"
| "ser_members l (kv # kvs) =
     indent l @ quote (fst kv) @ '': '' @ ser l (snd kv)
       @ (if kvs = [] then [] else CHR '','' # CHR 0x0A # ser_members l kvs)"
  by pat_completeness auto
termination
  by (relation "measure (\<lambda>x. case x of
          Inl (l, v) \<Rightarrow> 2 * size v
        | Inr (Inl (l, vs)) \<Rightarrow> 2 * size_list size vs + 1
        | Inr (Inr (l, kvs)) \<Rightarrow> 2 * size_list (size_prod (\<lambda>_. 0) size) kvs + 1)")
    auto

definition ref_stringify :: "json \<Rightarrow> string" where
  "ref_stringify v = ser 0 v"

text \<open>
  The values the program writes: no number, and no key twice in an object. \<open>weight\<close>
  bounds the depth of the calls the parser needs for a value.
\<close>

fun plain :: "json \<Rightarrow> bool" where
  "plain (JNum r) = False"
| "plain (JArr xs) = (\<forall>x \<in> set xs. plain x)"
| "plain (JObj kvs) = (distinct (map fst kvs) \<and> (\<forall>kv \<in> set kvs. plain (snd kv)))"
| "plain _ = True"

fun weight :: "json \<Rightarrow> nat" where
  "weight (JArr xs) = Suc (sum_list (map (\<lambda>x. Suc (weight x)) xs))"
| "weight (JObj kvs) = Suc (sum_list (map (\<lambda>kv. Suc (weight (snd kv))) kvs))"
| "weight _ = 1"

text \<open>
  The graph: its nodes in the order they came, each with the width and height it was
  set with (\<open>None\<close> for a node that only an edge named), and its edges. The layout puts
  the \<open>k\<close>-th node in rank \<open>k\<close>, ranks 80 apart, all in one row.
\<close>

type_synonym ref_graph = "(string \<times> (real \<times> real) option) list \<times> (string \<times> string) list"

definition ref_setNode :: "string \<Rightarrow> real \<Rightarrow> real \<Rightarrow> ref_graph \<Rightarrow> ref_graph" where
  "ref_setNode v w h g = (AList.update v (Some (w, h)) (fst g), snd g)"

definition ref_ensure :: "string \<Rightarrow> (string \<times> (real \<times> real) option) list
    \<Rightarrow> (string \<times> (real \<times> real) option) list" where
  "ref_ensure v ns = (if map_of ns v = None then ns @ [(v, None)] else ns)"

definition ref_setEdge :: "string \<Rightarrow> string \<Rightarrow> ref_graph \<Rightarrow> ref_graph" where
  "ref_setEdge v w g =
     (if (v, w) \<in> set (snd g) then g
      else (ref_ensure w (ref_ensure v (fst g)), snd g @ [(v, w)]))"

definition ref_node :: "ref_graph \<Rightarrow> string \<Rightarrow> (real \<times> real) option" where
  "ref_node g v =
     (case map_of (fst g) v of
        Some (Some (w, h)) \<Rightarrow>
          Some (w / 2 + (w + 80) * real (length (takeWhile (\<lambda>p. fst p \<noteq> v) (fst g))), h / 2)
      | _ \<Rightarrow> None)"

text \<open>
  The layout throws where the graph has a node whose id is the empty string, be it a
  node that only an edge named. Where it returns, it leaves a mark of the call in the
  graph, a loop between two names made of the call's number, which no place depends
  on.
\<close>

definition ref_layout :: "nat \<Rightarrow> ref_graph \<Rightarrow> js_error + ref_graph" where
  "ref_layout k g =
     (if map_of (fst g) [] \<noteq> None then Inl TypeError
      else Inr (fst g, snd g @ [(''_d'' @ show_nat k, ''_d'' @ show_nat k)]))"

fun ref_join :: "string list \<Rightarrow> string" where
  "ref_join [] = ''.''"
| "ref_join [p] = p"
| "ref_join (p # q # ps) = p @ ''/'' @ ref_join (q # ps)"

text \<open>
  An edge with an empty source or target is not added, nor one that joins two nodes
  already joined in that direction.
\<close>

definition ref_addEdge :: "edge \<Rightarrow> edge list \<Rightarrow> edge list option" where
  "ref_addEdge e es =
     (if source e = [] \<or> target e = [] then None
      else if list_ex (\<lambda>e'. source e' = source e \<and> target e' = target e) es then None
      else Some (es @ [e]))"

definition ref_platform :: "ref_graph platform" where
  "ref_platform =
     \<lparr>JSON_parse = ref_parse,
      JSON_stringify = ref_stringify,
      new_Graph = ([], []),
      setGraph = (\<lambda>rankdir nodesep ranksep g. g),
      setDefaultEdgeLabel = (\<lambda>g. g),
      setNode = ref_setNode,
      setEdge = ref_setEdge,
      dagre_layout = ref_layout,
      graph_node = ref_node,
      path_join = ref_join,
      addEdge = ref_addEdge\<rparr>"

text \<open>The state the component starts with, as \<open>useState\<close> is given it.\<close>

definition initial_session :: "'g platform \<Rightarrow> nat \<Rightarrow> js_error + session" where
  "initial_session pf k =
     (case layoutGraph pf k initialNodes initialEdges of
        Inl e \<Rightarrow> Inl e
      | Inr placed \<Rightarrow>
          Inr \<lparr>nodes = placed, edges = initialEdges, selectedNodeId = None,
               selectedEdgeId = None, graphFile = None, nodeNotes = [],
               tags = [\<lparr>tag_id = ''tag-core'', name = ''Core'', color = ''#6366F1''\<rparr>,
                       \<lparr>tag_id = ''tag-todo'', name = ''Todo'', color = ''#22C55E''\<rparr>],
               selectedTagColor = None, newTagName = [], newTagColor = ''#38BDF8'',
               status = ''Ready''\<rparr>)"

text \<open>The session the reference platform starts with: the two nodes side by side.\<close>

definition ref_session :: session where
  "ref_session =
     \<lparr>nodes = [\<lparr>node_id = ''node-1'', node_type = ''graphNode'', position = (0, 0),
                 node_data = \<lparr>label = Some ''Idea'', tagColor = Some ''#6366F1''\<rparr>\<rparr>,
               \<lparr>node_id = ''node-2'', node_type = ''graphNode'', position = (300, 0),
                 node_data = \<lparr>label = Some ''Next'', tagColor = Some ''#22C55E''\<rparr>\<rparr>],
      edges = initialEdges, selectedNodeId = None,
      selectedEdgeId = None, graphFile = None, nodeNotes = [],
      tags = [\<lparr>tag_id = ''tag-core'', name = ''Core'', color = ''#6366F1''\<rparr>,
              \<lparr>tag_id = ''tag-todo'', name = ''Todo'', color = ''#22C55E''\<rparr>],
      selectedTagColor = None, newTagName = [], newTagColor = ''#38BDF8'',
      status = ''Ready''\<rparr>"

definition ref_uuid :: "nat \<Rightarrow> string" where
  "ref_uuid k = ''00000000-0000-4000-8000-00000000000'' @ show_nat (k mod 10)"

subsection \<open>Example documents and sessions\<close>

definition endpoints :: "edge \<Rightarrow> string \<times> string" where
  "endpoints e = (source e, target e)"

definition dangling_text :: string where
  "dangling_text = ''{\"nodes\":[{\"id\":\"a\"}], \"edges\":[{\"source\":\"a\",\"target\":\"b\"}]}''"

definition dangling_payload :: GraphFilePayload where
  "dangling_payload =
     \<lparr>filePath = ''/docs/g_data/g.json'', baseDir = ''/docs/g_data'',
      payload_data = dangling_text\<rparr>"

definition broken_payload :: GraphFilePayload where
  "broken_payload =
     \<lparr>filePath = ''/docs/g_data/g.json'', baseDir = ''/docs/g_data'',
      payload_data = ''{\"nodes\": [''\<rparr>"

definition empty_payload :: GraphFilePayload where
  "empty_payload =
     \<lparr>filePath = ''/docs/g_data/g.json'', baseDir = ''/docs/g_data'',
      payload_data = ''{}''\<rparr>"

text \<open>A file whose whole text is \<open>null\<close>.\<close>

definition null_payload :: GraphFilePayload where
  "null_payload =
     \<lparr>filePath = ''/docs/g_data/g.json'', baseDir = ''/docs/g_data'',
      payload_data = ''null''\<rparr>"

text \<open>The starting session with the first node selected and a note held for each node.\<close>

definition node_selected_session :: session where
  "node_selected_session =
     ref_session\<lparr>selectedNodeId := Some ''node-1'',
       nodeNotes := [(''node-1'', ''first note''), (''node-2'', ''second note'')]\<rparr>"

text \<open>The starting session with its edge selected.\<close>

definition edge_selected_session :: session where
  "edge_selected_session = ref_session\<lparr>selectedEdgeId := Some ''e1-2''\<rparr>"

text \<open>The two starting nodes with other labels, colours and places.\<close>

definition relabelled_nodes :: "node list" where
  "relabelled_nodes =
     [\<lparr>node_id = ''node-1'', node_type = ''graphNode'', position = (7, 9),
        node_data = \<lparr>label = Some ''Plan'', tagColor = None\<rparr>\<rparr>,
      \<lparr>node_id = ''node-2'', node_type = ''graphNode'', position = (1, 1),
        node_data = \<lparr>label = None, tagColor = Some ''#000000''\<rparr>\<rparr>]"

text \<open>
  Four edges between the two starting nodes: one directed, one undirected, one with
  no \<open>data\<close> and one whose \<open>data\<close> has no flag.
\<close>

definition mixed_edges :: "edge list" where
  "mixed_edges =
     [\<lparr>edge_id = ''e1'', source = ''node-1'', target = ''node-2'',
        edge_type = Some ''smoothstep'', style = Some defaultEdgeStyle,
        edge_data = Some \<lparr>directed = Some True\<rparr>, markerEnd = Some arrowMarker\<rparr>,
      \<lparr>edge_id = ''e2'', source = ''node-2'', target = ''node-1'',
        edge_type = Some ''smoothstep'', style = Some defaultEdgeStyle,
        edge_data = Some \<lparr>directed = Some False\<rparr>, markerEnd = None\<rparr>,
      \<lparr>edge_id = ''e3'', source = ''node-1'', target = ''node-1'',
        edge_type = None, style = None, edge_data = None, markerEnd = None\<rparr>,
      \<lparr>edge_id = ''e4'', source = ''node-2'', target = ''node-2'',
        edge_type = None, style = None, edge_data = Some \<lparr>directed = None\<rparr>, markerEnd = None\<rparr>]"



text \<open>Every call of the gateway resolves.\<close>

definition all_ok :: "ipc \<Rightarrow> bool" where
  "all_ok c = True"

text \<open>The document with the dangling edge, opened from the starting world.\<close>

definition opened_world :: world where
  "opened_world =
     step ref_platform all_ok (Open (Inr (Some dangling_payload)) ref_uuid 0)
       (initial_world ref_session)"

definition two_edits :: "event list" where
  "two_edits = [AddNode ''n3'', Connect ''a'' ''node-n3'' ''k1'']"

text \<open>
  A document with one node \<open>a\<close>, whose note file holds \<open>hello\<close>. The document is opened,
  the node is clicked before the timeout of the autosave fires, the note is read, and
  then the timeout fires.
\<close>

definition noted_payload :: GraphFilePayload where
  "noted_payload =
     \<lparr>filePath = ''/docs/g_data/g.json'', baseDir = ''/docs/g_data'',
      payload_data = ''{\"nodes\":[{\"id\":\"a\",\"label\":\"A\",\"tagColor\":\"#6366F1\"}],\"edges\":[]}''\<rparr>"

definition noted_disk :: disk where
  "noted_disk =
     [(''/docs/g_data/g.json'', payload_data noted_payload),
      (''/docs/g_data/nodes/a.md'', ''hello'')]"

definition stale_events :: "event list" where
  "stale_events =
     [Open (Inr (Some noted_payload)) ref_uuid 0,
      NodeClick ''a'',
      ReadDone 0 (node_read ref_platform ''/docs/g_data'' ''a'' noted_disk),
      Timeout 1 []]"

definition stale_world :: world where
  "stale_world = run ref_platform all_ok stale_events (initial_world ref_session)"

text \<open>
  A second document, which has a node \<open>a\<close> too, with the note \<open>kept\<close>. The first
  document is opened and its node is clicked; the second document is opened while the
  note of the first is being read; the read settles; a node is added; the timeout of
  the autosave fires.
\<close>

definition other_payload :: GraphFilePayload where
  "other_payload =
     \<lparr>filePath = ''/docs/h_data/h.json'', baseDir = ''/docs/h_data'',
      payload_data = ''{\"nodes\":[{\"id\":\"a\",\"label\":\"Other\",\"tagColor\":\"#22C55E\"}],\"edges\":[]}''\<rparr>"

definition two_disk :: disk where
  "two_disk =
     noted_disk @
     [(''/docs/h_data/h.json'', payload_data other_payload),
      (''/docs/h_data/nodes/a.md'', ''kept'')]"

definition race_events :: "event list" where
  "race_events =
     [Open (Inr (Some noted_payload)) ref_uuid 0,
      NodeClick ''a'',
      Open (Inr (Some other_payload)) ref_uuid 1,
      ReadDone 0 (node_read ref_platform ''/docs/g_data'' ''a'' two_disk),
      AddNode ''n2'',
      Timeout 3 []]"

section \<open>Properties\<close>

subsection \<open>Mapping with a callback that may throw\<close>

lemma traverse_map: "traverse f (map g xs) = traverse (\<lambda>x. f (g x)) xs"
  by (induction xs) (auto split: sum.splits)

lemma traverse_total:
  "(\<And>x. x \<in> set xs \<Longrightarrow> f x = Inr (g x)) \<Longrightarrow> traverse f xs = Inr (map g xs)"
  by (induction xs) auto

lemma traverse_length: "traverse f xs = Inr ys \<Longrightarrow> length ys = length xs"
  by (induction xs arbitrary: ys) (auto split: sum.splits)

subsection \<open>The reference printer and parser\<close>

lemma hex_val_hex_digit: "n < 16 \<Longrightarrow> hex_val (hex_digit n) = Some n"
  by (auto simp: hex_val_def hex_digit_def Let_def)

lemma hex_pair: "n < 32 \<Longrightarrow> char_of (16 * (n div 16) + n mod 16) = (char_of n :: char)"
  by simp

lemma parse_chars_u:
  assumes "(of_char c :: nat) < 32"
  shows "parse_chars (CHR 0x5C # CHR ''u'' # CHR ''0'' # CHR ''0''
           # hex_digit ((of_char c :: nat) div 16) # hex_digit ((of_char c :: nat) mod 16) # t)
         = map_option (\<lambda>(s, r). (c # s, r)) (parse_chars t)"
proof -
  have d: "(of_char c :: nat) div 16 < 16" and m: "(of_char c :: nat) mod 16 < 16"
    using assms by simp_all
  have same: "char_of (16 * ((of_char c :: nat) div 16) + (of_char c :: nat) mod 16) = c"
    by simp
  show ?thesis
    by (simp add: hex_val_hex_digit [OF d] hex_val_hex_digit [OF m] same)
qed

lemma parse_chars_quote_char:
  "parse_chars (quote_char c @ t) = map_option (\<lambda>(s, r). (c # s, r)) (parse_chars t)"
proof (cases "(of_char c :: nat) < 32")
  case True
  consider "c = CHR 0x08" | "c = CHR 0x0C" | "c = CHR 0x0A" | "c = CHR 0x0D" | "c = CHR 0x09"
    | "c \<noteq> CHR 0x08" "c \<noteq> CHR 0x0C" "c \<noteq> CHR 0x0A" "c \<noteq> CHR 0x0D" "c \<noteq> CHR 0x09"
    by blast
  then show ?thesis
  proof cases
    case 6
    have "c \<noteq> CHR 0x22" "c \<noteq> CHR 0x5C"
      using True by auto
    with 6 True have "quote_char c = [CHR 0x5C, CHR ''u'', CHR ''0'', CHR ''0'',
         hex_digit ((of_char c :: nat) div 16), hex_digit ((of_char c :: nat) mod 16)]"
      by (simp add: quote_char_def)
    with parse_chars_u [OF True] show ?thesis
      by (simp del: parse_chars.simps)
  qed (simp_all add: quote_char_def unescape_def)
next
  case False
  then show ?thesis
    by (simp add: quote_char_def unescape_def)
qed

lemma parse_chars_quote:
  "parse_chars (concat (map quote_char s) @ CHR 0x22 # rest) = Some (s, rest)"
proof (induction s)
  case Nil
  then show ?case by simp
next
  case (Cons c s)
  have "parse_chars (concat (map quote_char (c # s)) @ CHR 0x22 # rest)
      = parse_chars (quote_char c @ (concat (map quote_char s) @ CHR 0x22 # rest))"
    by simp
  also have "\<dots> = map_option (\<lambda>(s, r). (c # s, r))
                     (parse_chars (concat (map quote_char s) @ CHR 0x22 # rest))"
    by (rule parse_chars_quote_char)
  finally show ?case
    by (simp add: Cons.IH del: parse_chars.simps)
qed

lemma skip_ws_pre: "list_all is_ws pre \<Longrightarrow> skip_ws (pre @ s) = skip_ws s"
  by (induction pre) (simp_all add: skip_ws_def)

lemma skip_ws_keep: "\<not> is_ws c \<Longrightarrow> skip_ws (c # cs) = c # cs"
  by (simp add: skip_ws_def)

lemma indent_ws: "list_all is_ws (indent l)"
  by (simp add: indent_def is_ws_def list_all_iff)

lemma ser_head:
  "plain v \<Longrightarrow> \<exists>c cs. ser l v = c # cs \<and> c \<in> {CHR ''n'', CHR ''t'', CHR ''f'', CHR 0x22, CHR ''['', CHR ''{''}"
  by (cases v) (auto simp: quote_def)

lemma nl_indent_ws: "list_all is_ws (CHR 0x0A # indent l)"
  using indent_ws [of l] by (simp add: is_ws_def)

lemma skip_ws_closing:
  "c \<in> {CHR '']'', CHR ''}''} \<Longrightarrow> skip_ws (CHR 0x0A # indent l @ c # rest) = c # rest"
proof -
  assume c: "c \<in> {CHR '']'', CHR ''}''}"
  then have "\<not> is_ws c"
    by (auto simp: is_ws_def)
  then have "skip_ws (c # rest) = c # rest"
    by (rule skip_ws_keep)
  with skip_ws_pre [OF nl_indent_ws, of l "c # rest"] show ?thesis
    by simp
qed

lemma parse_elements_ser:
  assumes "\<And>y fuel l pre rest. y \<in> set (x # xs) \<Longrightarrow> weight y \<le> fuel \<Longrightarrow> list_all is_ws pre \<Longrightarrow>
             parse_value fuel (pre @ ser l y @ rest) = Some (y, rest)"
    and "sum_list (map (\<lambda>y. Suc (weight y)) (x # xs)) \<le> fuel"
    and "list_all is_ws pre"
  shows "parse_elements fuel
           (pre @ ser l x @ (if xs = [] then [] else CHR '','' # CHR 0x0A # ser_elements l xs)
              @ CHR 0x0A # indent l' @ CHR '']'' # rest)
         = Some (x # xs, rest)"
  using assms
proof (induction xs arbitrary: x fuel pre)
  case Nil
  from Nil.prems(2) obtain f where f: "fuel = Suc f" "weight x \<le> f"
    by (cases fuel) auto
  have "parse_value f (pre @ ser l x @ CHR 0x0A # indent l' @ CHR '']'' # rest)
          = Some (x, CHR 0x0A # indent l' @ CHR '']'' # rest)"
    using Nil.prems(1) [of x f pre l] f(2) Nil.prems(3) by simp
  then show ?case
    by (simp add: f(1) skip_ws_closing)
next
  case (Cons y ys)
  from Cons.prems(2) obtain f where f: "fuel = Suc f" "weight x \<le> f"
      "sum_list (map (\<lambda>y. Suc (weight y)) (y # ys)) \<le> f"
    by (cases fuel) auto
  let ?tail = "(if ys = [] then [] else CHR '','' # CHR 0x0A # ser_elements l ys)
                 @ CHR 0x0A # indent l' @ CHR '']'' # rest"
  have next_ones: "parse_elements f ((CHR 0x0A # indent l) @ ser l y @ ?tail) = Some (y # ys, rest)"
    using Cons.IH [of y f "CHR 0x0A # indent l"] Cons.prems(1) f(3) nl_indent_ws [of l]
    by simp
  have first: "parse_value f (pre @ ser l x @ CHR '','' # CHR 0x0A # indent l @ ser l y @ ?tail)
          = Some (x, CHR '','' # CHR 0x0A # indent l @ ser l y @ ?tail)"
    using Cons.prems(1) [of x f pre l] f(2) Cons.prems(3) by simp
  have comma: "skip_ws (CHR '','' # CHR 0x0A # indent l @ ser l y @ ?tail)
      = CHR '','' # CHR 0x0A # indent l @ ser l y @ ?tail"
    by (rule skip_ws_keep) (simp add: is_ws_def)
  show ?case
    using first next_ones comma
    by (simp add: f(1))
qed

lemma parse_quote: "parse_chars (tl (quote k) @ rest) = Some (k, rest)"
  using parse_chars_quote [of k rest] by (simp add: quote_def)

lemma quote_head: "quote k = CHR 0x22 # tl (quote k)"
  by (simp add: quote_def)

lemma parse_members_ser:
  assumes "\<And>kv fuel l pre rest. kv \<in> set (p # ps) \<Longrightarrow> weight (snd kv) \<le> fuel \<Longrightarrow>
             list_all is_ws pre \<Longrightarrow>
             parse_value fuel (pre @ ser l (snd kv) @ rest) = Some (snd kv, rest)"
    and "sum_list (map (\<lambda>kv. Suc (weight (snd kv))) (p # ps)) \<le> fuel"
    and "list_all is_ws pre"
  shows "parse_members fuel
           (pre @ quote (fst p) @ '': '' @ ser l (snd p)
              @ (if ps = [] then [] else CHR '','' # CHR 0x0A # ser_members l ps)
              @ CHR 0x0A # indent l' @ CHR ''}'' # rest)
         = Some (p # ps, rest)"
  using assms
proof (induction ps arbitrary: p fuel pre)
  case Nil
  from Nil.prems(2) obtain f where f: "fuel = Suc f" "weight (snd p) \<le> f"
    by (cases fuel) auto
  let ?after = "CHR 0x0A # indent l' @ CHR ''}'' # rest"
  have start: "skip_ws (pre @ quote (fst p) @ '': '' @ ser l (snd p) @ ?after)
      = CHR 0x22 # tl (quote (fst p)) @ '': '' @ ser l (snd p) @ ?after"
    using skip_ws_pre [OF Nil.prems(3)] skip_ws_keep [of "CHR 0x22"]
    by (simp add: quote_def is_ws_def)
  have key: "parse_chars (tl (quote (fst p)) @ '': '' @ ser l (snd p) @ ?after)
      = Some (fst p, '': '' @ ser l (snd p) @ ?after)"
    by (rule parse_quote)
  have colon: "skip_ws ('': '' @ ser l (snd p) @ ?after) = '': '' @ ser l (snd p) @ ?after"
    by (simp add: skip_ws_def is_ws_def)
  have val: "parse_value f ('' '' @ ser l (snd p) @ ?after) = Some (snd p, ?after)"
    using Nil.prems(1) [of p f "'' ''" l] f(2) by (simp add: is_ws_def)
  show ?case
    using start key colon val
    by (simp add: f(1) skip_ws_closing)
next
  case (Cons q qs)
  from Cons.prems(2) obtain f where f: "fuel = Suc f" "weight (snd p) \<le> f"
      "sum_list (map (\<lambda>kv. Suc (weight (snd kv))) (q # qs)) \<le> f"
    by (cases fuel) auto
  let ?tail = "(if qs = [] then [] else CHR '','' # CHR 0x0A # ser_members l qs)
                 @ CHR 0x0A # indent l' @ CHR ''}'' # rest"
  let ?more = "CHR '','' # CHR 0x0A # indent l @ quote (fst q) @ '': '' @ ser l (snd q) @ ?tail"
  have next_ones: "parse_members f ((CHR 0x0A # indent l) @ quote (fst q) @ '': '' @ ser l (snd q) @ ?tail)
      = Some (q # qs, rest)"
    using Cons.IH [of q f "CHR 0x0A # indent l"] Cons.prems(1) f(3) nl_indent_ws [of l]
    by simp
  have start: "skip_ws (pre @ quote (fst p) @ '': '' @ ser l (snd p) @ ?more)
      = CHR 0x22 # tl (quote (fst p)) @ '': '' @ ser l (snd p) @ ?more"
    using skip_ws_pre [OF Cons.prems(3)] skip_ws_keep [of "CHR 0x22"]
    by (simp add: quote_def is_ws_def)
  have key: "parse_chars (tl (quote (fst p)) @ '': '' @ ser l (snd p) @ ?more)
      = Some (fst p, '': '' @ ser l (snd p) @ ?more)"
    by (rule parse_quote)
  have colon: "skip_ws ('': '' @ ser l (snd p) @ ?more) = '': '' @ ser l (snd p) @ ?more"
    by (simp add: skip_ws_def is_ws_def)
  have val: "parse_value f ('' '' @ ser l (snd p) @ ?more) = Some (snd p, ?more)"
    using Cons.prems(1) [of p f "'' ''" l] f(2) by (simp add: is_ws_def)
  have comma: "skip_ws ?more = ?more"
    by (rule skip_ws_keep) (simp add: is_ws_def)
  show ?case
    using start key colon val comma next_ones
    by (simp add: f(1))
qed

lemma parse_value_ser:
  "plain v \<Longrightarrow> weight v \<le> fuel \<Longrightarrow> list_all is_ws pre \<Longrightarrow>
     parse_value fuel (pre @ ser l v @ rest) = Some (v, rest)"
proof (induction v arbitrary: fuel l pre rest)
  case JNull
  then obtain f where "fuel = Suc f" by (cases fuel) auto
  with skip_ws_pre [OF JNull.prems(3), of "''null'' @ rest"] show ?case
    by (simp add: skip_ws_def is_ws_def expect_def)
next
  case (JBool b)
  then obtain f where "fuel = Suc f" by (cases fuel) auto
  with skip_ws_pre [OF JBool.prems(3), of "''true'' @ rest"]
    skip_ws_pre [OF JBool.prems(3), of "''false'' @ rest"] show ?case
    by (cases b) (simp_all add: skip_ws_def is_ws_def expect_def)
next
  case (JNum r)
  then show ?case by simp
next
  case (JStr s)
  then obtain f where "fuel = Suc f" by (cases fuel) auto
  with skip_ws_pre [OF JStr.prems(3), of "quote s @ rest"] parse_quote [of s rest] show ?case
    by (simp add: skip_ws_def is_ws_def quote_def del: parse_chars.simps)
next
  case (JArr xs)
  from JArr.prems(2) obtain f where f: "fuel = Suc f"
      "sum_list (map (\<lambda>y. Suc (weight y)) xs) \<le> f"
    by (cases fuel) auto
  show ?case
  proof (cases xs)
    case Nil
    with f skip_ws_pre [OF JArr.prems(3), of "''[]'' @ rest"] show ?thesis
      by (simp add: skip_ws_def is_ws_def)
  next
    case (Cons x ys)
    let ?body = "ser (Suc l) x @ (if ys = [] then [] else CHR '','' # CHR 0x0A # ser_elements (Suc l) ys)
                   @ CHR 0x0A # indent l @ CHR '']'' # rest"
    from JArr.prems(1) Cons have "plain x" by simp
    from ser_head [OF this, of "Suc l"] obtain c cs where head: "ser (Suc l) x = c # cs"
        "c \<in> {CHR ''n'', CHR ''t'', CHR ''f'', CHR 0x22, CHR ''['', CHR ''{''}"
      by blast
    then have c: "\<not> is_ws c" "c \<noteq> CHR '']''"
      by (auto simp: is_ws_def)
    have whole: "pre @ ser l (JArr xs) @ rest = pre @ CHR ''['' # (CHR 0x0A # indent (Suc l)) @ ?body"
      using Cons by simp
    have open_: "skip_ws (pre @ CHR ''['' # (CHR 0x0A # indent (Suc l)) @ ?body)
        = CHR ''['' # (CHR 0x0A # indent (Suc l)) @ ?body"
      using skip_ws_pre [OF JArr.prems(3)] skip_ws_keep [of "CHR ''[''"]
      by (simp add: is_ws_def)
    have inner: "skip_ws ((CHR 0x0A # indent (Suc l)) @ ?body) = ?body"
      using skip_ws_pre [OF nl_indent_ws, of "Suc l" ?body] skip_ws_keep [OF c(1)] head(1)
      by simp
    have elems: "parse_elements f ([] @ ?body) = Some (x # ys, rest)"
    proof (rule parse_elements_ser)
      fix y fuel l pre rest
      assume "y \<in> set (x # ys)" "weight y \<le> fuel" "list_all is_ws pre"
      with JArr.IH [of y fuel pre l rest] JArr.prems(1) Cons
      show "parse_value fuel (pre @ ser l y @ rest) = Some (y, rest)"
        by auto
    next
      show "sum_list (map (\<lambda>y. Suc (weight y)) (x # ys)) \<le> f"
        using f(2) Cons by simp
    qed simp
    have body: "?body = c # (cs @ (if ys = [] then [] else CHR '','' # CHR 0x0A # ser_elements (Suc l) ys)
                   @ CHR 0x0A # indent l @ CHR '']'' # rest)"
      using head(1) by simp
    show ?thesis
      unfolding whole f(1)
      using open_ inner elems c(2) body Cons
      by (simp del: ser.simps ser_elements.simps)
  qed
next
  case (JObj kvs)
  from JObj.prems(2) obtain f where f: "fuel = Suc f"
      "sum_list (map (\<lambda>kv. Suc (weight (snd kv))) kvs) \<le> f"
    by (cases fuel) auto
  show ?case
  proof (cases kvs)
    case Nil
    with f skip_ws_pre [OF JObj.prems(3), of "''{}'' @ rest"] show ?thesis
      by (simp add: skip_ws_def is_ws_def)
  next
    case (Cons p ps)
    let ?body = "quote (fst p) @ '': '' @ ser (Suc l) (snd p)
                   @ (if ps = [] then [] else CHR '','' # CHR 0x0A # ser_members (Suc l) ps)
                   @ CHR 0x0A # indent l @ CHR ''}'' # rest"
    have whole: "pre @ ser l (JObj kvs) @ rest = pre @ CHR ''{'' # (CHR 0x0A # indent (Suc l)) @ ?body"
      using Cons by simp
    have open_: "skip_ws (pre @ CHR ''{'' # (CHR 0x0A # indent (Suc l)) @ ?body)
        = CHR ''{'' # (CHR 0x0A # indent (Suc l)) @ ?body"
      using skip_ws_pre [OF JObj.prems(3)] skip_ws_keep [of "CHR ''{''"]
      by (simp add: is_ws_def)
    have inner: "skip_ws ((CHR 0x0A # indent (Suc l)) @ ?body) = ?body"
      using skip_ws_pre [OF nl_indent_ws, of "Suc l" ?body] skip_ws_keep [of "CHR 0x22"]
      by (simp add: quote_def is_ws_def)
    have members: "parse_members f ([] @ ?body) = Some (p # ps, rest)"
    proof (rule parse_members_ser)
      fix kv fuel l pre rest
      assume kv: "kv \<in> set (p # ps)" "weight (snd kv) \<le> fuel" "list_all is_ws pre"
      have "snd kv \<in> Basic_BNFs.snds kv"
        by (cases kv) simp
      with JObj.IH [of kv "snd kv" fuel pre l rest] JObj.prems(1) Cons kv
      show "parse_value fuel (pre @ ser l (snd kv) @ rest) = Some (snd kv, rest)"
        by auto
    next
      show "sum_list (map (\<lambda>kv. Suc (weight (snd kv))) (p # ps)) \<le> f"
        using f(2) Cons by simp
    qed simp
    obtain X where X: "?body = CHR 0x22 # X"
      by (simp add: quote_def)
    show ?thesis
      unfolding whole f(1) X
      using open_ [unfolded X] inner [unfolded X] members [unfolded X] Cons
      by (simp del: ser.simps ser_members.simps)
  qed
qed

lemma weight_elements:
  assumes "\<And>x. x \<in> set xs \<Longrightarrow> weight x \<le> length (ser (Suc l) x)"
  shows "sum_list (map (\<lambda>x. Suc (weight x)) xs) \<le> length (ser_elements (Suc l) xs)"
  using assms
proof (induction xs)
  case Nil
  then show ?case by simp
next
  case (Cons x xs)
  have "weight x \<le> length (ser (Suc l) x)"
    using Cons.prems by simp
  moreover have "sum_list (map (\<lambda>x. Suc (weight x)) xs) \<le> length (ser_elements (Suc l) xs)"
    using Cons.IH Cons.prems by simp
  ultimately show ?case
    by (simp add: indent_def)
qed

lemma weight_members:
  assumes "\<And>kv. kv \<in> set kvs \<Longrightarrow> weight (snd kv) \<le> length (ser (Suc l) (snd kv))"
  shows "sum_list (map (\<lambda>kv. Suc (weight (snd kv))) kvs) \<le> length (ser_members (Suc l) kvs)"
  using assms
proof (induction kvs)
  case Nil
  then show ?case by simp
next
  case (Cons kv kvs)
  have "weight (snd kv) \<le> length (ser (Suc l) (snd kv))"
    using Cons.prems by simp
  moreover have "sum_list (map (\<lambda>kv. Suc (weight (snd kv))) kvs) \<le> length (ser_members (Suc l) kvs)"
    using Cons.IH Cons.prems by simp
  ultimately show ?case
    by (simp add: indent_def)
qed

lemma weight_le_length: "plain v \<Longrightarrow> weight v \<le> length (ser l v)"
proof (induction v arbitrary: l)
  case (JArr xs)
  have "sum_list (map (\<lambda>x. Suc (weight x)) xs) \<le> length (ser_elements (Suc l) xs)"
    using JArr by (intro weight_elements) simp
  then show ?case by simp
next
  case (JObj kvs)
  have "sum_list (map (\<lambda>kv. Suc (weight (snd kv))) kvs) \<le> length (ser_members (Suc l) kvs)"
  proof (rule weight_members)
    fix kv
    assume kv: "kv \<in> set kvs"
    have "snd kv \<in> Basic_BNFs.snds kv"
      by (cases kv) simp
    with JObj.IH [of kv "snd kv" "Suc l"] JObj.prems kv
    show "weight (snd kv) \<le> length (ser (Suc l) (snd kv))"
      by simp
  qed
  then show ?case by simp
qed (simp_all add: quote_def)

lemma update_fresh: "k \<notin> fst ` set al \<Longrightarrow> AList.update k v al = al @ [(k, v)]"
  by (induction al) auto

lemma fold_update_distinct:
  "distinct (map fst (acc @ kvs)) \<Longrightarrow> (\<And>kv. kv \<in> set kvs \<Longrightarrow> f (snd kv) = snd kv) \<Longrightarrow>
     fold (\<lambda>(k, v). AList.update k (f v)) kvs acc = acc @ kvs"
proof (induction kvs arbitrary: acc)
  case Nil
  then show ?case by simp
next
  case (Cons kv kvs)
  obtain k v where kv: "kv = (k, v)" by (cases kv)
  have fresh: "k \<notin> fst ` set acc"
    using Cons.prems(1) kv by auto
  have same: "f v = v"
    using Cons.prems(2) [of kv] kv by simp
  have "fold (\<lambda>(k, v). AList.update k (f v)) kvs (acc @ [kv]) = (acc @ [kv]) @ kvs"
    using Cons.prems by (intro Cons.IH) auto
  then show ?case
    by (simp add: kv update_fresh [OF fresh] same)
qed

lemma last_wins_plain: "plain v \<Longrightarrow> last_wins v = v"
proof (induction v)
  case (JArr xs)
  then show ?case by (simp add: map_idI)
next
  case (JObj kvs)
  have "fold (\<lambda>(k, v). AList.update k (last_wins v)) kvs [] = [] @ kvs"
  proof (rule fold_update_distinct)
    show "distinct (map fst ([] @ kvs))"
      using JObj.prems by simp
  next
    fix kv
    assume kv: "kv \<in> set kvs"
    have "snd kv \<in> Basic_BNFs.snds kv"
      by (cases kv) simp
    with JObj.IH [of kv "snd kv"] JObj.prems kv show "last_wins (snd kv) = snd kv"
      by simp
  qed
  then show ?case by simp
qed simp_all

text \<open>
  The reference parser reads back what the reference printer wrote, for every value
  without a number whose objects have distinct keys.
\<close>

lemma ref_parse_stringify: "plain v \<Longrightarrow> ref_parse (ref_stringify v) = Some v"
proof -
  assume v: "plain v"
  have "weight v \<le> Suc (length (ser 0 v))"
    using weight_le_length [OF v, of 0] by simp
  from parse_value_ser [OF v this, of "[]" 0 "[]"]
  show ?thesis
    by (simp add: ref_parse_def ref_stringify_def skip_ws_def last_wins_plain [OF v])
qed

lemma plain_node_json: "plain (node_json n)"
  by (cases "label (node_data n)"; cases "tagColor (node_data n)")
    (simp_all add: node_json_def obj_def List.map_filter_def)

lemma plain_edge_json: "plain (edge_json e)"
  by (simp add: edge_json_def obj_def List.map_filter_def)

lemma plain_createGraphJson: "plain (createGraphJson ns es)"
  by (simp add: createGraphJson_def obj_def List.map_filter_def plain_node_json plain_edge_json)

text \<open>So the reference platform gives back every document the program writes.\<close>

lemma ref_platform_roundtrip:
  "JSON_parse ref_platform (JSON_stringify ref_platform (createGraphJson ns es))
     = Some (createGraphJson ns es)"
  by (simp add: ref_platform_def ref_parse_stringify plain_createGraphJson)

subsection \<open>Layout\<close>









subsection \<open>Serializer\<close>

lemma node_json_props:
  "js_prop (node_json n) ''id'' = Some (JStr (node_id n))"
  "js_prop (node_json n) ''label'' = map_option JStr (label (node_data n))"
  "js_prop (node_json n) ''tagColor'' = map_option JStr (tagColor (node_data n))"
  by (cases "label (node_data n)"; cases "tagColor (node_data n)";
      simp add: node_json_def obj_def List.map_filter_def)+

lemma edge_json_props:
  "js_prop (edge_json e) ''source'' = Some (JStr (source e))"
  "js_prop (edge_json e) ''target'' = Some (JStr (target e))"
  "js_prop (edge_json e) ''directed'' = Some (JBool (isDirected e))"
  by (simp_all add: edge_json_def obj_def List.map_filter_def)

lemma node_json_not_null: "node_json n \<noteq> JNull"
  by (simp add: node_json_def obj_def)

lemma edge_json_not_null: "edge_json e \<noteq> JNull"
  by (simp add: edge_json_def obj_def)

lemma createGraphJson_props:
  "createGraphJson ns es = JObj [(''nodes'', JArr (map node_json ns)), (''edges'', JArr (map edge_json es))]"
  by (simp add: createGraphJson_def obj_def List.map_filter_def)

lemma loadNode_node_json:
  "loadNode (node_json n) =
     Inr \<lparr>node_id = node_id n, node_type = ''graphNode'', position = (0, 0),
          node_data = \<lparr>label = label (node_data n), tagColor = tagColor (node_data n)\<rparr>\<rparr>"
  by (cases "label (node_data n)"; cases "tagColor (node_data n)";
      simp add: loadNode_def node_json_props node_json_not_null as_string_def as_optional_string_def)

lemma loadEdge_edge_json:
  "\<exists>e'. loadEdge (i, edge_json e) = Inr e' \<and> source e' = source e \<and> target e' = target e
      \<and> edge_data e' = Some \<lparr>directed = Some (isDirected e)\<rparr>"
  by (simp add: loadEdge_def edge_json_props edge_json_not_null as_string_def directed_or_true_def)

lemma traverse_loadEdge:
  "\<exists>es2. traverse loadEdge (enumerate k (map edge_json es)) = Inr es2
      \<and> map source es2 = map source es \<and> map target es2 = map target es
      \<and> map edge_data es2 = map (\<lambda>e. Some \<lparr>directed = Some (isDirected e)\<rparr>) es"
proof (induction es arbitrary: k)
  case Nil
  then show ?case by simp
next
  case (Cons e es)
  obtain e' where e': "loadEdge (k, edge_json e) = Inr e'" "source e' = source e"
      "target e' = target e" "edge_data e' = Some \<lparr>directed = Some (isDirected e)\<rparr>"
    using loadEdge_edge_json by blast
  obtain es2 where es2: "traverse loadEdge (enumerate (Suc k) (map edge_json es)) = Inr es2"
      "map source es2 = map source es" "map target es2 = map target es"
      "map edge_data es2 = map (\<lambda>e. Some \<lparr>directed = Some (isDirected e)\<rparr>) es"
    using Cons.IH by blast
  show ?case
    by (simp add: e' es2)
qed

lemma isDirected_cases:
  "isDirected e =
     (case edge_data e of
        None \<Rightarrow> True
      | Some x \<Rightarrow> (case directed x of None \<Rightarrow> True | Some b \<Rightarrow> b))"
  by (simp add: isDirected_def)

lemma map_eq_nth: "map f xs = map g ys \<Longrightarrow> i < length ys \<Longrightarrow> f (xs ! i) = g (ys ! i)"
proof -
  assume eq: "map f xs = map g ys" and i: "i < length ys"
  from eq have "length xs = length ys"
    by (rule map_eq_imp_length_eq)
  with i have "map f xs ! i = f (xs ! i)" "map g ys ! i = g (ys ! i)"
    by simp_all
  with eq show ?thesis by simp
qed

text \<open>
  C1. On a platform whose \<open>JSON.parse\<close> gives back the value that \<open>JSON.stringify\<close>
  was given, for the document that \<open>createGraphJson\<close> builds of these nodes and edges:
  \<open>parseGraphJson\<close> of the text returns a node list and an edge list whose entries
  hold, in order, the id, label and tag colour of every node and the source, target
  and \<open>directed\<close> flag of every edge; \<open>handleOpen\<close>'s readers accept both lists and
  build nodes and edges with these same fields. The flag is the one in the edge's
  \<open>data\<close>: an edge that holds \<open>directed = b\<close> comes back with \<open>b\<close>, be it \<open>true\<close> or
  \<open>false\<close>. An edge that holds no flag comes back with \<open>true\<close>, which is how every
  reader of the program takes such an edge (\<open>edge.data?.directed ?? true\<close>). The
  reference platform is such a platform, for all nodes and edges
  (\<open>ref_platform_roundtrip\<close>).
\<close>

theorem serialize_roundtrip:
  assumes "JSON_parse pf (JSON_stringify pf (createGraphJson ns es)) = Some (createGraphJson ns es)"
  shows "\<exists>d ns' es' ns2 es2.
      parseGraphJson pf (JSON_stringify pf (createGraphJson ns es)) = Inr d
    \<and> json_nodes d = JArr ns' \<and> json_edges d = JArr es'
    \<and> map (\<lambda>j. js_prop j ''id'') ns' = map (\<lambda>n. Some (JStr (node_id n))) ns
    \<and> map (\<lambda>j. js_prop j ''label'') ns' = map (\<lambda>n. map_option JStr (label (node_data n))) ns
    \<and> map (\<lambda>j. js_prop j ''tagColor'') ns' = map (\<lambda>n. map_option JStr (tagColor (node_data n))) ns
    \<and> map (\<lambda>j. js_prop j ''source'') es' = map (\<lambda>e. Some (JStr (source e))) es
    \<and> map (\<lambda>j. js_prop j ''target'') es' = map (\<lambda>e. Some (JStr (target e))) es
    \<and> map (\<lambda>j. js_prop j ''directed'') es'
        = map (\<lambda>e. Some (JBool (case edge_data e of
                                    None \<Rightarrow> True
                                  | Some x \<Rightarrow> (case directed x of None \<Rightarrow> True | Some b \<Rightarrow> b)))) es
    \<and> loadNodes (json_nodes d) = Inr ns2 \<and> loadEdges (json_edges d) = Inr es2
    \<and> map node_id ns2 = map node_id ns \<and> map node_data ns2 = map node_data ns
    \<and> map source es2 = map source es \<and> map target es2 = map target es
    \<and> (\<forall>i < length es. \<forall>b.
          edge_data (es ! i) = Some \<lparr>directed = Some b\<rparr> \<longrightarrow>
            js_prop (es' ! i) ''directed'' = Some (JBool b)
          \<and> edge_data (es2 ! i) = Some \<lparr>directed = Some b\<rparr>)
    \<and> (\<forall>i < length es.
          edge_data (es ! i) = None \<or> edge_data (es ! i) = Some \<lparr>directed = None\<rparr> \<longrightarrow>
            js_prop (es' ! i) ''directed'' = Some (JBool True)
          \<and> edge_data (es2 ! i) = Some \<lparr>directed = Some True\<rparr>)"
proof -
  let ?d = "\<lparr>json_nodes = JArr (map node_json ns), json_edges = JArr (map edge_json es)\<rparr>"
  let ?ns2 = "map (\<lambda>n. \<lparr>node_id = node_id n, node_type = ''graphNode'', position = (0, 0),
          node_data = \<lparr>label = label (node_data n), tagColor = tagColor (node_data n)\<rparr>\<rparr>) ns"
  have parsed: "parseGraphJson pf (JSON_stringify pf (createGraphJson ns es)) = Inr ?d"
    using assms by (simp add: parseGraphJson_def createGraphJson_props or_empty_def)
  have ln: "loadNodes (JArr (map node_json ns)) = Inr ?ns2"
    by (simp add: loadNodes_def traverse_map traverse_total loadNode_node_json)
  obtain es2 where le: "loadEdges (JArr (map edge_json es)) = Inr es2"
    and ends: "map source es2 = map source es" "map target es2 = map target es"
    and flags: "map edge_data es2 = map (\<lambda>e. Some \<lparr>directed = Some (isDirected e)\<rparr>) es"
    using traverse_loadEdge [of 0 es] by (auto simp: loadEdges_def)
  have written: "map (\<lambda>j. js_prop j ''directed'') (map edge_json es)
        = map (\<lambda>e. Some (JBool (case edge_data e of
                                    None \<Rightarrow> True
                                  | Some x \<Rightarrow> (case directed x of None \<Rightarrow> True | Some b \<Rightarrow> b)))) es"
    by (simp add: edge_json_props comp_def isDirected_cases)
  have loaded: "edge_data (es2 ! i) = Some \<lparr>directed = Some (isDirected (es ! i))\<rparr>"
    if "i < length es" for i
    using map_eq_nth [OF flags that] .
  have kept: "js_prop (map edge_json es ! i) ''directed'' = Some (JBool b)
      \<and> edge_data (es2 ! i) = Some \<lparr>directed = Some b\<rparr>"
    if "i < length es" "edge_data (es ! i) = Some \<lparr>directed = Some b\<rparr>" for i b
    using that loaded [OF that(1)] by (simp add: edge_json_props isDirected_def)
  have absent: "js_prop (map edge_json es ! i) ''directed'' = Some (JBool True)
      \<and> edge_data (es2 ! i) = Some \<lparr>directed = Some True\<rparr>"
    if "i < length es" "edge_data (es ! i) = None \<or> edge_data (es ! i) = Some \<lparr>directed = None\<rparr>" for i
    using that loaded [OF that(1)] by (auto simp: edge_json_props isDirected_def)
  have nodes_back: "map node_id ?ns2 = map node_id ns" "map node_data ?ns2 = map node_data ns"
    by (simp_all add: comp_def)
  show ?thesis
  proof (rule exI [of _ ?d], rule exI [of _ "map node_json ns"],
      rule exI [of _ "map edge_json es"], rule exI [of _ ?ns2], rule exI [of _ es2],
      intro conjI)
    show "parseGraphJson pf (JSON_stringify pf (createGraphJson ns es)) = Inr ?d"
      by (fact parsed)
    show "json_nodes ?d = JArr (map node_json ns)" "json_edges ?d = JArr (map edge_json es)"
      by simp_all
    show "map (\<lambda>j. js_prop j ''id'') (map node_json ns) = map (\<lambda>n. Some (JStr (node_id n))) ns"
      "map (\<lambda>j. js_prop j ''label'') (map node_json ns)
         = map (\<lambda>n. map_option JStr (label (node_data n))) ns"
      "map (\<lambda>j. js_prop j ''tagColor'') (map node_json ns)
         = map (\<lambda>n. map_option JStr (tagColor (node_data n))) ns"
      by (simp_all add: node_json_props comp_def)
    show "map (\<lambda>j. js_prop j ''source'') (map edge_json es) = map (\<lambda>e. Some (JStr (source e))) es"
      "map (\<lambda>j. js_prop j ''target'') (map edge_json es) = map (\<lambda>e. Some (JStr (target e))) es"
      by (simp_all add: edge_json_props comp_def)
    show "map (\<lambda>j. js_prop j ''directed'') (map edge_json es)
        = map (\<lambda>e. Some (JBool (case edge_data e of
                                    None \<Rightarrow> True
                                  | Some x \<Rightarrow> (case directed x of None \<Rightarrow> True | Some b \<Rightarrow> b)))) es"
      by (fact written)
    show "loadNodes (json_nodes ?d) = Inr ?ns2" "loadEdges (json_edges ?d) = Inr es2"
      by (simp_all add: ln le)
    show "map node_id ?ns2 = map node_id ns" "map node_data ?ns2 = map node_data ns"
      by (fact nodes_back)+
    show "map source es2 = map source es" "map target es2 = map target es"
      by (fact ends)+
    show "\<forall>i < length es. \<forall>b.
          edge_data (es ! i) = Some \<lparr>directed = Some b\<rparr> \<longrightarrow>
            js_prop (map edge_json es ! i) ''directed'' = Some (JBool b)
          \<and> edge_data (es2 ! i) = Some \<lparr>directed = Some b\<rparr>"
      using kept by blast
    show "\<forall>i < length es.
          edge_data (es ! i) = None \<or> edge_data (es ! i) = Some \<lparr>directed = None\<rparr> \<longrightarrow>
            js_prop (map edge_json es ! i) ''directed'' = Some (JBool True)
          \<and> edge_data (es2 ! i) = Some \<lparr>directed = Some True\<rparr>"
      using absent by blast
  qed
qed

theorem serialize_roundtrip_witness:
  "JSON_parse ref_platform (JSON_stringify ref_platform (createGraphJson relabelled_nodes mixed_edges))
     = Some (createGraphJson relabelled_nodes mixed_edges)
   \<and> map edge_data mixed_edges
       = [Some \<lparr>directed = Some True\<rparr>, Some \<lparr>directed = Some False\<rparr>, None,
          Some \<lparr>directed = None\<rparr>]
   \<and> parseGraphJson ref_platform
        (JSON_stringify ref_platform (createGraphJson relabelled_nodes mixed_edges))
     = Inr \<lparr>json_nodes = JArr [JObj [(''id'', JStr ''node-1''), (''label'', JStr ''Plan'')],
                               JObj [(''id'', JStr ''node-2''), (''tagColor'', JStr ''#000000'')]],
            json_edges = JArr [JObj [(''source'', JStr ''node-1''), (''target'', JStr ''node-2''),
                                     (''directed'', JBool True)],
                               JObj [(''source'', JStr ''node-2''), (''target'', JStr ''node-1''),
                                     (''directed'', JBool False)],
                               JObj [(''source'', JStr ''node-1''), (''target'', JStr ''node-1''),
                                     (''directed'', JBool True)],
                               JObj [(''source'', JStr ''node-2''), (''target'', JStr ''node-2''),
                                     (''directed'', JBool True)]]\<rparr>
   \<and> map_sum id (map edge_data)
        (loadEdges (JArr (map edge_json mixed_edges)))
     = Inr [Some \<lparr>directed = Some True\<rparr>, Some \<lparr>directed = Some False\<rparr>,
            Some \<lparr>directed = Some True\<rparr>, Some \<lparr>directed = Some True\<rparr>]"
proof -
  have rt: "JSON_parse ref_platform (JSON_stringify ref_platform (createGraphJson relabelled_nodes mixed_edges))
     = Some (createGraphJson relabelled_nodes mixed_edges)"
    by code_simp
  have doc: "createGraphJson relabelled_nodes mixed_edges =
      JObj [(''nodes'', JArr [JObj [(''id'', JStr ''node-1''), (''label'', JStr ''Plan'')],
                               JObj [(''id'', JStr ''node-2''), (''tagColor'', JStr ''#000000'')]]),
            (''edges'', JArr [JObj [(''source'', JStr ''node-1''), (''target'', JStr ''node-2''),
                                     (''directed'', JBool True)],
                               JObj [(''source'', JStr ''node-2''), (''target'', JStr ''node-1''),
                                     (''directed'', JBool False)],
                               JObj [(''source'', JStr ''node-1''), (''target'', JStr ''node-1''),
                                     (''directed'', JBool True)],
                               JObj [(''source'', JStr ''node-2''), (''target'', JStr ''node-2''),
                                     (''directed'', JBool True)]])]"
    by code_simp
  have flags: "map edge_data mixed_edges
       = [Some \<lparr>directed = Some True\<rparr>, Some \<lparr>directed = Some False\<rparr>, None,
          Some \<lparr>directed = None\<rparr>]"
    by (simp add: mixed_edges_def)
  have loaded: "map_sum id (map edge_data) (loadEdges (JArr (map edge_json mixed_edges)))
     = Inr [Some \<lparr>directed = Some True\<rparr>, Some \<lparr>directed = Some False\<rparr>,
            Some \<lparr>directed = Some True\<rparr>, Some \<lparr>directed = Some True\<rparr>]"
    by code_simp
  from serialize_roundtrip [OF rt] rt doc flags loaded show ?thesis
    by (auto simp: parseGraphJson_def or_empty_def)
qed

text \<open>
  C3 as it is stated fails: \<open>handleOpen\<close> has no filter. The document named there, with
  one node \<open>a\<close> and one edge from \<open>a\<close> to \<open>b\<close>, opens without an error as a session that
  holds the node \<open>a\<close> and the edge from \<open>a\<close> to \<open>b\<close>.
\<close>

theorem handleOpen_keeps_dangling_edge:
  "fst (handleOpen ref_platform ref_uuid 0 (Inr (Some dangling_payload)) ref_session) = None
   \<and> map node_id (nodes (snd (handleOpen ref_platform ref_uuid 0 (Inr (Some dangling_payload)) ref_session)))
       = [''a'']
   \<and> map endpoints (edges (snd (handleOpen ref_platform ref_uuid 0 (Inr (Some dangling_payload)) ref_session)))
       = [(''a'', ''b'')]"
  by code_simp

lemma loadEdge_endpoints:
  "loadEdge (i, j) = Inr e \<Longrightarrow>
     js_prop j ''source'' = Some (JStr (source e)) \<and> js_prop j ''target'' = Some (JStr (target e))"
  by (auto simp: loadEdge_def as_string_def split: if_splits sum.splits option.splits json.splits)

lemma traverse_loadEdge_endpoints:
  "traverse loadEdge (enumerate k xs) = Inr es \<Longrightarrow>
     length es = length xs
     \<and> map (\<lambda>j. js_prop j ''source'') xs = map (\<lambda>e. Some (JStr (source e))) es
     \<and> map (\<lambda>j. js_prop j ''target'') xs = map (\<lambda>e. Some (JStr (target e))) es"
proof (induction xs arbitrary: k es)
  case Nil
  then show ?case by simp
next
  case (Cons x xs)
  then show ?case
    by (auto split: sum.splits dest: loadEdge_endpoints)
qed

text \<open>
  C3, amended. Where \<open>handleOpen\<close> opens a document, the session holds one edge for
  every entry of the document's edge list, in order, with the source and the target
  of that entry: no entry is dropped, whatever nodes the document has.
\<close>

theorem handleOpen_keeps_every_edge:
  assumes "handleOpen pf uuid k (Inr (Some r)) s = (None, s')"
  shows "\<exists>d xs. parseGraphJson pf (payload_data r) = Inr d \<and> json_edges d = JArr xs
    \<and> length (edges s') = length xs
    \<and> map (\<lambda>j. js_prop j ''source'') xs = map (\<lambda>e. Some (JStr (source e))) (edges s')
    \<and> map (\<lambda>j. js_prop j ''target'') xs = map (\<lambda>e. Some (JStr (target e))) (edges s')"
  using assms
  by (auto simp: handleOpen_def loadEdges_def split: sum.splits json.splits
      dest!: traverse_loadEdge_endpoints)

theorem handleOpen_keeps_every_edge_witness:
  "handleOpen ref_platform ref_uuid 0 (Inr (Some dangling_payload)) ref_session
     = (None, snd (handleOpen ref_platform ref_uuid 0 (Inr (Some dangling_payload)) ref_session))
   \<and> map_sum id json_edges (parseGraphJson ref_platform (payload_data dangling_payload))
       = Inr (JArr [JObj [(''source'', JStr ''a''), (''target'', JStr ''b'')]])
   \<and> map source (edges (snd (handleOpen ref_platform ref_uuid 0 (Inr (Some dangling_payload)) ref_session)))
       = [''a'']
   \<and> map target (edges (snd (handleOpen ref_platform ref_uuid 0 (Inr (Some dangling_payload)) ref_session)))
       = [''b'']"
proof -
  have ok: "handleOpen ref_platform ref_uuid 0 (Inr (Some dangling_payload)) ref_session
     = (None, snd (handleOpen ref_platform ref_uuid 0 (Inr (Some dangling_payload)) ref_session))"
    by code_simp
  have doc: "map_sum id json_edges (parseGraphJson ref_platform (payload_data dangling_payload))
       = Inr (JArr [JObj [(''source'', JStr ''a''), (''target'', JStr ''b'')]])"
    by code_simp
  from handleOpen_keeps_every_edge [OF ok] ok doc show ?thesis
    by auto
qed

subsection \<open>Deleting a node\<close>

text \<open>
  C5. With a node selected (the handler's guard reads the selection: an id that is
  neither \<open>null\<close> nor empty), \<open>onDeleteNode\<close> removes the nodes of that id and no other,
  the edges that start or end there and no other, and the note of that id and no
  other; and if every edge joined two nodes of the session before, every edge that
  is left joins two nodes that are left.
\<close>

theorem onDeleteNode_cascade:
  assumes "truthy_str (selectedNodeId s)"
  shows "set (nodes (onDeleteNode s)) = {n \<in> set (nodes s). node_id n \<noteq> the (selectedNodeId s)}
    \<and> set (edges (onDeleteNode s)) =
        {e \<in> set (edges s). source e \<noteq> the (selectedNodeId s) \<and> target e \<noteq> the (selectedNodeId s)}
    \<and> map_of (nodeNotes (onDeleteNode s)) (the (selectedNodeId s)) = None
    \<and> (\<forall>k. k \<noteq> the (selectedNodeId s) \<longrightarrow>
          map_of (nodeNotes (onDeleteNode s)) k = map_of (nodeNotes s) k)
    \<and> ((\<forall>e \<in> set (edges s). source e \<in> node_id ` set (nodes s) \<and> target e \<in> node_id ` set (nodes s))
        \<longrightarrow> (\<forall>e \<in> set (edges (onDeleteNode s)).
               source e \<in> node_id ` set (nodes (onDeleteNode s))
             \<and> target e \<in> node_id ` set (nodes (onDeleteNode s))))"
  using assms by (auto simp: onDeleteNode_def Let_def delete_conv)

theorem onDeleteNode_cascade_witness:
  "truthy_str (selectedNodeId node_selected_session)
   \<and> list_all (\<lambda>e. source e \<in> node_id ` set (nodes node_selected_session)
                 \<and> target e \<in> node_id ` set (nodes node_selected_session))
        (edges node_selected_session)
   \<and> map node_id (nodes (onDeleteNode node_selected_session)) = [''node-2'']
   \<and> edges (onDeleteNode node_selected_session) = []
   \<and> nodeNotes (onDeleteNode node_selected_session) = [(''node-2'', ''second note'')]
   \<and> map_of (nodeNotes (onDeleteNode node_selected_session)) ''node-1'' = None"
proof -
  have sel: "truthy_str (selectedNodeId node_selected_session)"
    by (simp add: node_selected_session_def truthy_str_def)
  have run: "map node_id (nodes (onDeleteNode node_selected_session)) = [''node-2'']
      \<and> edges (onDeleteNode node_selected_session) = []
      \<and> nodeNotes (onDeleteNode node_selected_session) = [(''node-2'', ''second note'')]"
    by (simp add: onDeleteNode_def node_selected_session_def ref_session_def initialEdges_def
        truthy_str_def)
  have pre: "list_all (\<lambda>e. source e \<in> node_id ` set (nodes node_selected_session)
                 \<and> target e \<in> node_id ` set (nodes node_selected_session))
        (edges node_selected_session)"
    by (simp add: node_selected_session_def ref_session_def initialEdges_def)
  from onDeleteNode_cascade [OF sel] sel run pre show ?thesis
    by (simp add: node_selected_session_def)
qed

subsection \<open>Toggling the direction of an edge\<close>

text \<open>
  C9. With an edge selected (an id that is neither \<open>null\<close> nor empty, as the guard
  reads it), \<open>onToggleEdgeDirection\<close> changes the edge list only: nodes, notes, tags,
  selection and file binding stay. The list keeps its length and order; an edge of
  another id is unchanged, an edge of the selected id has its direction flipped and
  its arrow set to match, and nothing else of it changes. With no edge selected the
  session is unchanged.
\<close>

theorem onToggleEdgeDirection_frame:
  "(truthy_str (selectedEdgeId s) \<longrightarrow>
      onToggleEdgeDirection s = s\<lparr>edges := edges (onToggleEdgeDirection s)\<rparr>
    \<and> nodes (onToggleEdgeDirection s) = nodes s
    \<and> nodeNotes (onToggleEdgeDirection s) = nodeNotes s
    \<and> tags (onToggleEdgeDirection s) = tags s
    \<and> graphFile (onToggleEdgeDirection s) = graphFile s
    \<and> length (edges (onToggleEdgeDirection s)) = length (edges s)
    \<and> (\<forall>i < length (edges s).
         let e = edges s ! i; e' = edges (onToggleEdgeDirection s) ! i in
         if edge_id e = the (selectedEdgeId s)
         then isDirected e' = (\<not> isDirected e)
            \<and> markerEnd e' = (if isDirected e' then Some arrowMarker else None)
            \<and> e' = e\<lparr>edge_data := edge_data e', markerEnd := markerEnd e'\<rparr>
         else e' = e))
   \<and> (\<not> truthy_str (selectedEdgeId s) \<longrightarrow> onToggleEdgeDirection s = s)"
  by (auto simp: onToggleEdgeDirection_def toggle_edge_def Let_def isDirected_def
      with_directed_def split: option.splits)

theorem onToggleEdgeDirection_frame_witness:
  "truthy_str (selectedEdgeId edge_selected_session)
   \<and> map isDirected (edges edge_selected_session) = [True]
   \<and> map isDirected (edges (onToggleEdgeDirection edge_selected_session)) = [False]
   \<and> map markerEnd (edges (onToggleEdgeDirection edge_selected_session)) = [None]
   \<and> nodes (onToggleEdgeDirection edge_selected_session) = nodes edge_selected_session
   \<and> \<not> truthy_str (selectedEdgeId ref_session)
   \<and> onToggleEdgeDirection ref_session = ref_session"
proof -
  have sel: "truthy_str (selectedEdgeId edge_selected_session)"
    by (simp add: edge_selected_session_def truthy_str_def)
  have none: "\<not> truthy_str (selectedEdgeId ref_session)"
    by (simp add: ref_session_def truthy_str_def)
  have run: "map isDirected (edges edge_selected_session) = [True]
      \<and> map isDirected (edges (onToggleEdgeDirection edge_selected_session)) = [False]
      \<and> map markerEnd (edges (onToggleEdgeDirection edge_selected_session)) = [None]"
    by (simp add: onToggleEdgeDirection_def toggle_edge_def edge_selected_session_def
        ref_session_def initialEdges_def truthy_str_def isDirected_def with_directed_def)
  from onToggleEdgeDirection_frame [of edge_selected_session]
    onToggleEdgeDirection_frame [of ref_session] sel none run
  show ?thesis by simp
qed

subsection \<open>Reading a document\<close>

text \<open>
  C6 as it is stated fails. The text \<open>null\<close> is valid JSON and has neither a \<open>nodes\<close> nor
  an \<open>edges\<close> key, yet \<open>parseGraphJson\<close> throws on it: \<open>JSON.parse\<close> returns \<open>null\<close>, the
  type \<open>GraphJson\<close> is asserted and not checked, and reading \<open>parsed.nodes\<close> of \<open>null\<close>
  is a \<open>TypeError\<close>. \<open>handleOpen\<close> throws it on, and the session stays as it was.
\<close>

theorem parseGraphJson_null_throws:
  "JSON_parse ref_platform ''null'' = Some JNull
   \<and> parseGraphJson ref_platform ''null'' = Inl TypeError
   \<and> handleOpen ref_platform ref_uuid 0 (Inr (Some null_payload)) ref_session
       = (Some TypeError, ref_session)"
  by code_simp

text \<open>
  C6, amended. Where the text parses to a value other than \<open>null\<close>, \<open>parseGraphJson\<close>
  returns; a \<open>nodes\<close> key that is absent gives the empty list, and so does an absent
  \<open>edges\<close> key, each on its own. It throws a \<open>SyntaxError\<close> exactly where \<open>JSON.parse\<close>
  does, and a \<open>TypeError\<close> where the text parses to \<open>null\<close>. A document other than
  \<open>null\<close> with neither key opens without an error, as a session with no node and no
  edge, where \<open>dagre.layout\<close> returns for the empty graph that \<open>handleOpen\<close> has laid
  out.
\<close>

theorem parseGraphJson_tolerant:
  "(\<forall>parsed. JSON_parse pf raw = Some parsed \<and> parsed \<noteq> JNull \<longrightarrow>
      (\<exists>d. parseGraphJson pf raw = Inr d
         \<and> (js_prop parsed ''nodes'' = None \<longrightarrow> json_nodes d = JArr [])
         \<and> (js_prop parsed ''edges'' = None \<longrightarrow> json_edges d = JArr [])))
   \<and> (parseGraphJson pf raw = Inl SyntaxError \<longleftrightarrow> JSON_parse pf raw = None)
   \<and> (JSON_parse pf raw = Some JNull \<longrightarrow> parseGraphJson pf raw = Inl TypeError)
   \<and> (\<forall>parsed g. JSON_parse pf (payload_data r) = Some parsed \<and> parsed \<noteq> JNull
         \<and> js_prop parsed ''nodes'' = None \<and> js_prop parsed ''edges'' = None
         \<and> dagre_layout pf k (build_graph pf [] []) = Inr g \<longrightarrow>
        fst (handleOpen pf uuid k (Inr (Some r)) s) = None
        \<and> nodes (snd (handleOpen pf uuid k (Inr (Some r)) s)) = []
        \<and> edges (snd (handleOpen pf uuid k (Inr (Some r)) s)) = [])"
  by (auto simp: parseGraphJson_def or_empty_def handleOpen_def loadNodes_def loadEdges_def
      layoutGraph_def split: option.splits json.splits)

lemma parse_empty_object: "JSON_parse ref_platform ''{}'' = Some (JObj [])"
  by code_simp

theorem parseGraphJson_tolerant_witness:
  "JSON_parse ref_platform ''{}'' = Some (JObj [])
   \<and> parseGraphJson ref_platform ''{}'' = Inr \<lparr>json_nodes = JArr [], json_edges = JArr []\<rparr>
   \<and> fst (handleOpen ref_platform ref_uuid 0 (Inr (Some empty_payload)) ref_session) = None
   \<and> nodes (snd (handleOpen ref_platform ref_uuid 0 (Inr (Some empty_payload)) ref_session)) = []
   \<and> edges (snd (handleOpen ref_platform ref_uuid 0 (Inr (Some empty_payload)) ref_session)) = []
   \<and> dagre_layout ref_platform 0 (build_graph ref_platform [] [])
       = Inr ([], [(''_d0'', ''_d0'')])
   \<and> JSON_parse ref_platform ''{\"nodes\": ['' = None
   \<and> parseGraphJson ref_platform ''{\"nodes\": ['' = Inl SyntaxError
   \<and> JSON_parse ref_platform ''null'' = Some JNull
   \<and> parseGraphJson ref_platform ''null'' = Inl TypeError"
proof -
  have bad: "JSON_parse ref_platform ''{\"nodes\": ['' = None"
    by code_simp
  have null: "JSON_parse ref_platform ''null'' = Some JNull"
    by code_simp
  have data: "payload_data empty_payload = ''{}''"
    by (simp add: empty_payload_def)
  have lays: "dagre_layout ref_platform 0 (build_graph ref_platform [] [])
      = Inr ([], [(''_d0'', ''_d0'')])"
    by code_simp
  from parseGraphJson_tolerant [where pf = ref_platform and raw = "''{}''" and r = empty_payload
        and uuid = ref_uuid and k = 0 and s = ref_session]
    parseGraphJson_tolerant [where pf = ref_platform and raw = "''{\"nodes\": [''"
        and r = empty_payload and uuid = ref_uuid and k = 0 and s = ref_session]
    parseGraphJson_tolerant [where pf = ref_platform and raw = "''null''" and r = empty_payload
        and uuid = ref_uuid and k = 0 and s = ref_session]
    parse_empty_object bad null data lays
  show ?thesis by auto
qed

text \<open>
  C7. Where the text of the opened file does not parse, \<open>handleOpen\<close> throws the
  \<open>SyntaxError\<close> and leaves the session as it was, every field of it; in the component
  nothing is rendered and no effect runs: the world is as before, but for the
  \<open>openGraph\<close> call that was sent.
\<close>

theorem handleOpen_parse_failure:
  assumes "JSON_parse pf (payload_data r) = None"
  shows "handleOpen pf uuid k (Inr (Some r)) s = (Some SyntaxError, s)
    \<and> step pf ok (Open (Inr (Some r)) uuid k) w = w\<lparr>wire := wire w @ [OpenGraph]\<rparr>"
  using assms by (simp add: handleOpen_def parseGraphJson_def)

theorem handleOpen_parse_failure_witness:
  "JSON_parse ref_platform (payload_data broken_payload) = None
   \<and> handleOpen ref_platform ref_uuid 0 (Inr (Some broken_payload)) node_selected_session
       = (Some SyntaxError, node_selected_session)
   \<and> step ref_platform all_ok (Open (Inr (Some broken_payload)) ref_uuid 0) opened_world
       = opened_world\<lparr>wire := wire opened_world @ [OpenGraph]\<rparr>"
proof -
  have bad: "JSON_parse ref_platform (payload_data broken_payload) = None"
    by code_simp
  from handleOpen_parse_failure [OF bad, of ref_uuid 0 node_selected_session all_ok opened_world] bad
  show ?thesis by simp
qed

subsection \<open>The autosave timer\<close>

lemma clear_saveTimeout_well_timed: "well_timed w \<Longrightarrow> clear_saveTimeout w = []"
proof (cases "saveTimeout w")
  case None
  assume "well_timed w"
  with None show ?thesis
    by (cases "timers w") (auto simp: well_timed_def clear_saveTimeout_def)
next
  case (Some t)
  assume "well_timed w"
  with Some show ?thesis
    by (cases "timers w")
      (auto simp: well_timed_def clear_saveTimeout_def list_all_iff filter_empty_conv)
qed

lemma wire_note_effect [simp]:
  "filter is_SaveGraph (wire (note_effect w)) = filter is_SaveGraph (wire w)"
  by (simp add: note_effect_def Let_def)

lemma note_effect_keeps [simp]:
  "view (note_effect w) = view w" "timers (note_effect w) = timers w"
  "saveTimeout (note_effect w) = saveTimeout w" "next_handle (note_effect w) = next_handle w"
  by (simp_all add: note_effect_def Let_def)

lemma render_graph_set:
  assumes "well_timed w" "graphFile s' = Some gf" "filePath gf \<noteq> []"
  shows "view (render s' True b w) = s'"
    and "timers (render s' True b w) = [(next_handle w, s')]"
    and "saveTimeout (render s' True b w) = Some (next_handle w)"
    and "next_handle (render s' True b w) = Suc (next_handle w)"
    and "saves (render s' True b w) = saves w"
    and "well_timed (render s' True b w)"
  using assms
  by (simp_all add: render_def Let_def autosave_effect_def truthy_str_def
      clear_saveTimeout_well_timed saves_def well_timed_def)

text \<open>Every handler that edits the graph keeps the file binding.\<close>

lemma mutation_step:
  assumes "well_timed w" "graphFile (view w) = Some gf" "filePath gf \<noteq> []" "mutation pf e w"
  shows "graphFile (view (step pf ok e w)) = Some gf
    \<and> timers (step pf ok e w) = [(next_handle w, view (step pf ok e w))]
    \<and> saveTimeout (step pf ok e w) = Some (next_handle w)
    \<and> next_handle (step pf ok e w) = Suc (next_handle w)
    \<and> saves (step pf ok e w) = saves w
    \<and> well_timed (step pf ok e w)"
proof (cases e)
  case (AutoLayout k)
  with assms show ?thesis
    by (auto simp: onAutoLayout_def render_graph_set split: sum.splits)
next
  case (Connect src tgt uuid)
  with assms show ?thesis
    by (auto simp: onConnect_def render_graph_set split: option.splits)
qed (use assms in \<open>simp_all add: render_graph_set onAddNode_def onDeleteNode_def
      onToggleEdgeDirection_def onDeleteEdge_def updateSelectedNode_def Let_def\<close>)

lemma mutations_run:
  assumes "well_timed w" "graphFile (view w) = Some gf" "filePath gf \<noteq> []"
    "mutations pf ok evs w" "evs \<noteq> []"
  shows "\<exists>h. next_handle w \<le> h
    \<and> graphFile (view (run pf ok evs w)) = Some gf
    \<and> timers (run pf ok evs w) = [(h, view (run pf ok evs w))]
    \<and> saveTimeout (run pf ok evs w) = Some h
    \<and> saves (run pf ok evs w) = saves w"
  using assms
proof (induction evs arbitrary: w)
  case Nil
  then show ?case by simp
next
  case (Cons e es)
  from Cons.prems have m: "mutation pf e w" and ms: "mutations pf ok es (step pf ok e w)"
    by simp_all
  note one = mutation_step [OF Cons.prems(1-3) m, of ok]
  show ?case
  proof (cases "es = []")
    case True
    with one show ?thesis by (auto simp: run_def)
  next
    case False
    from Cons.IH [of "step pf ok e w"] one ms False Cons.prems(3)
    obtain h where "next_handle (step pf ok e w) \<le> h"
      "graphFile (view (run pf ok es (step pf ok e w))) = Some gf"
      "timers (run pf ok es (step pf ok e w)) = [(h, view (run pf ok es (step pf ok e w)))]"
      "saveTimeout (run pf ok es (step pf ok e w)) = Some h"
      "saves (run pf ok es (step pf ok e w)) = saves (step pf ok e w)"
      by blast
    with one show ?thesis
      by (intro exI [of _ h]) (simp add: run_def)
  qed
qed

lemma saves_persist:
  "filter is_SaveGraph (issued (persist pf ok c fp b))
     = [SaveGraph fp (JSON_stringify pf (createGraphJson (nodes c) (edges c)))]"
  by (auto simp: persist_def Let_def filter_empty_conv note_writes_def note_write_def
      split: note_value.splits)

lemma bound_persist [simp]: "bound (persist pf ok c fp b) = None"
  by (simp add: persist_def Let_def)

lemma render_quiet:
  "graphFile s' = graphFile (view w) \<Longrightarrow> selectedNodeId s' = selectedNodeId (view w) \<Longrightarrow>
     render s' False False w = w\<lparr>view := s'\<rparr>"
  by (simp add: render_def Let_def)

lemma timeout_fires:
  assumes "timers w = [(h, c)]" "graphFile c = Some gf" "filePath gf \<noteq> []"
  shows "saves (step pf ok (Timeout h answers) w)
           = saves w @ [SaveGraph (filePath gf)
                          (JSON_stringify pf (createGraphJson (nodes c) (edges c)))]"
    and "timers (step pf ok (Timeout h answers) w) = []"
  using assms
  by (auto simp: handleSave.simps after_save_def Let_def truthy_str_def saves_def saves_persist
      render_quiet split: option.splits)

lemma well_timed_initial: "well_timed (initial_world s)"
  by (simp add: well_timed_def initial_world_def)

lemma well_timed_note_effect [simp]: "well_timed (note_effect w) = well_timed w"
  by (simp add: well_timed_def)

lemma well_timed_autosave_effect: "well_timed w \<Longrightarrow> well_timed (autosave_effect w)"
  by (auto simp: autosave_effect_def clear_saveTimeout_well_timed well_timed_def)

lemma well_timed_view [simp]: "well_timed (w\<lparr>view := s\<rparr>) = well_timed w"
  by (simp add: well_timed_def)

lemma well_timed_wire [simp]: "well_timed (w\<lparr>wire := x\<rparr>) = well_timed w"
  by (simp add: well_timed_def)

lemma well_timed_reading [simp]: "well_timed (w\<lparr>reading := x\<rparr>) = well_timed w"
  by (simp add: well_timed_def)

lemma well_timed_render: "well_timed w \<Longrightarrow> well_timed (render s' g n w)"
  by (simp add: render_def Let_def well_timed_autosave_effect)

lemma well_timed_after_save: "well_timed w \<Longrightarrow> well_timed (after_save r w)"
  by (auto simp: after_save_def Let_def well_timed_render split: option.splits)

lemma well_timed_fired:
  "well_timed w \<Longrightarrow> well_timed (w\<lparr>timers := filter (\<lambda>p. fst p \<noteq> t) (timers w)\<rparr>)"
  by (auto simp: well_timed_def list_all_iff)

lemma well_timed_step: "well_timed w \<Longrightarrow> well_timed (step pf ok ev w)"
  by (cases ev)
    (auto simp: well_timed_render well_timed_after_save well_timed_fired Let_def
      split: prod.splits option.splits sum.splits)

lemma well_timed_run: "well_timed w \<Longrightarrow> well_timed (run pf ok evs w)"
  unfolding run_def by (induction evs arbitrary: w) (simp_all add: well_timed_step)

text \<open>An \<open>onConnect\<close> for which \<open>addEdge\<close> adds nothing leaves the component as it is.\<close>

lemma connect_adds_nothing:
  "addEdge pf (createEdge src tgt uuid True) (edges (view w)) = None \<Longrightarrow>
     step pf ok (Connect src tgt uuid) w = w"
  by (simp add: onConnect_def)

text \<open>What the document that \<open>createGraphJson\<close> builds holds.\<close>

lemma createGraphJson_holds:
  "\<exists>nj ej. createGraphJson ns es = JObj [(''nodes'', JArr nj), (''edges'', JArr ej)]
    \<and> map (\<lambda>j. js_prop j ''id'') nj = map (\<lambda>n. Some (JStr (node_id n))) ns
    \<and> map (\<lambda>j. js_prop j ''label'') nj = map (\<lambda>n. map_option JStr (label (node_data n))) ns
    \<and> map (\<lambda>j. js_prop j ''tagColor'') nj = map (\<lambda>n. map_option JStr (tagColor (node_data n))) ns
    \<and> map (\<lambda>j. js_prop j ''source'') ej = map (\<lambda>e. Some (JStr (source e))) es
    \<and> map (\<lambda>j. js_prop j ''target'') ej = map (\<lambda>e. Some (JStr (target e))) es
    \<and> map (\<lambda>j. js_prop j ''directed'') ej
        = map (\<lambda>e. Some (JBool (case edge_data e of
                                    None \<Rightarrow> True
                                  | Some x \<Rightarrow> (case directed x of None \<Rightarrow> True | Some b \<Rightarrow> b)))) es"
  by (intro exI [of _ "map node_json ns"] exI [of _ "map edge_json es"])
    (simp add: createGraphJson_props node_json_props edge_json_props comp_def isDirected_cases)

text \<open>
  C4. Let a file be bound and the scheduled timeouts be those of the autosave effect.
  After one or more handlers that set \<open>nodes\<close> or \<open>edges\<close>, with no timeout firing in
  between, exactly one timeout is scheduled, it is none of those scheduled before, and
  no graph file was written meanwhile. When it fires, one \<open>saveGraph\<close> call is issued:
  for the bound file, with the JSON text of a document that holds, in order, the id,
  label and tag colour of every node and the source, target and \<open>directed\<close> flag of
  every edge as the last handler left them; and no timeout is left. The condition on
  the timeouts holds after mounting and every event keeps it (\<open>well_timed_initial\<close>,
  \<open>well_timed_run\<close>).
\<close>

theorem autosave_debounce:
  assumes "well_timed w" "graphFile (view w) = Some gf" "filePath gf \<noteq> []"
    and "evs \<noteq> []" "mutations pf ok evs w"
  shows "\<exists>h. timers (run pf ok evs w) = [(h, view (run pf ok evs w))]
    \<and> h \<notin> fst ` set (timers w)
    \<and> saves (run pf ok evs w) = saves w
    \<and> (\<forall>answers. \<exists>nj ej.
          saves (step pf ok (Timeout h answers) (run pf ok evs w))
            = saves w @ [SaveGraph (filePath gf)
                 (JSON_stringify pf (JObj [(''nodes'', JArr nj), (''edges'', JArr ej)]))]
        \<and> map (\<lambda>j. js_prop j ''id'') nj
            = map (\<lambda>n. Some (JStr (node_id n))) (nodes (view (run pf ok evs w)))
        \<and> map (\<lambda>j. js_prop j ''label'') nj
            = map (\<lambda>n. map_option JStr (label (node_data n))) (nodes (view (run pf ok evs w)))
        \<and> map (\<lambda>j. js_prop j ''tagColor'') nj
            = map (\<lambda>n. map_option JStr (tagColor (node_data n))) (nodes (view (run pf ok evs w)))
        \<and> map (\<lambda>j. js_prop j ''source'') ej
            = map (\<lambda>e. Some (JStr (source e))) (edges (view (run pf ok evs w)))
        \<and> map (\<lambda>j. js_prop j ''target'') ej
            = map (\<lambda>e. Some (JStr (target e))) (edges (view (run pf ok evs w)))
        \<and> map (\<lambda>j. js_prop j ''directed'') ej
            = map (\<lambda>e. Some (JBool (case edge_data e of
                                        None \<Rightarrow> True
                                      | Some x \<Rightarrow> (case directed x of None \<Rightarrow> True | Some b \<Rightarrow> b))))
                (edges (view (run pf ok evs w)))
        \<and> timers (step pf ok (Timeout h answers) (run pf ok evs w)) = [])"
proof -
  let ?s = "view (run pf ok evs w)"
  from mutations_run [OF assms(1-3) assms(5) assms(4)]
  obtain h where h: "next_handle w \<le> h"
    "graphFile ?s = Some gf"
    "timers (run pf ok evs w) = [(h, ?s)]"
    "saves (run pf ok evs w) = saves w"
    by blast
  have old: "h \<notin> fst ` set (timers w)"
    using assms(1) h(1) by (auto simp: well_timed_def list_all_iff)
  obtain nj ej where doc: "createGraphJson (nodes ?s) (edges ?s)
        = JObj [(''nodes'', JArr nj), (''edges'', JArr ej)]"
    and fields: "map (\<lambda>j. js_prop j ''id'') nj = map (\<lambda>n. Some (JStr (node_id n))) (nodes ?s)"
      "map (\<lambda>j. js_prop j ''label'') nj = map (\<lambda>n. map_option JStr (label (node_data n))) (nodes ?s)"
      "map (\<lambda>j. js_prop j ''tagColor'') nj
         = map (\<lambda>n. map_option JStr (tagColor (node_data n))) (nodes ?s)"
      "map (\<lambda>j. js_prop j ''source'') ej = map (\<lambda>e. Some (JStr (source e))) (edges ?s)"
      "map (\<lambda>j. js_prop j ''target'') ej = map (\<lambda>e. Some (JStr (target e))) (edges ?s)"
      "map (\<lambda>j. js_prop j ''directed'') ej
        = map (\<lambda>e. Some (JBool (case edge_data e of
                                    None \<Rightarrow> True
                                  | Some x \<Rightarrow> (case directed x of None \<Rightarrow> True | Some b \<Rightarrow> b))))
            (edges ?s)"
    using createGraphJson_holds [of "nodes ?s" "edges ?s"] by blast
  note fired = timeout_fires [OF h(3) h(2) assms(3), of pf ok, unfolded doc h(4)]
  have "\<exists>nj ej.
          saves (step pf ok (Timeout h answers) (run pf ok evs w))
            = saves w @ [SaveGraph (filePath gf)
                 (JSON_stringify pf (JObj [(''nodes'', JArr nj), (''edges'', JArr ej)]))]
        \<and> map (\<lambda>j. js_prop j ''id'') nj = map (\<lambda>n. Some (JStr (node_id n))) (nodes ?s)
        \<and> map (\<lambda>j. js_prop j ''label'') nj = map (\<lambda>n. map_option JStr (label (node_data n))) (nodes ?s)
        \<and> map (\<lambda>j. js_prop j ''tagColor'') nj
            = map (\<lambda>n. map_option JStr (tagColor (node_data n))) (nodes ?s)
        \<and> map (\<lambda>j. js_prop j ''source'') ej = map (\<lambda>e. Some (JStr (source e))) (edges ?s)
        \<and> map (\<lambda>j. js_prop j ''target'') ej = map (\<lambda>e. Some (JStr (target e))) (edges ?s)
        \<and> map (\<lambda>j. js_prop j ''directed'') ej
            = map (\<lambda>e. Some (JBool (case edge_data e of
                                        None \<Rightarrow> True
                                      | Some x \<Rightarrow> (case directed x of None \<Rightarrow> True | Some b \<Rightarrow> b))))
                (edges ?s)
        \<and> timers (step pf ok (Timeout h answers) (run pf ok evs w)) = []" for answers
    using fired [of answers] fields
    by (intro exI [of _ nj] exI [of _ ej] conjI) (simp_all del: step.simps)
  with h(3,4) old show ?thesis
    by (intro exI [of _ h] conjI allI) (simp_all del: step.simps)
qed

lemma opened_world_eval:
  "map node_id (nodes (view opened_world)) = [''a'']
   \<and> graphFile (view opened_world) = Some \<lparr>filePath = ''/docs/g_data/g.json'', baseDir = ''/docs/g_data''\<rparr>
   \<and> map fst (timers opened_world) = [1] \<and> saveTimeout opened_world = Some 1
   \<and> next_handle opened_world = 2 \<and> wire opened_world = [OpenGraph]"
  by code_simp

theorem autosave_debounce_witness:
  "well_timed opened_world
   \<and> graphFile (view opened_world)
       = Some \<lparr>filePath = ''/docs/g_data/g.json'', baseDir = ''/docs/g_data''\<rparr>
   \<and> mutations ref_platform all_ok two_edits opened_world
   \<and> map fst (timers opened_world) = [1]
   \<and> timers (run ref_platform all_ok two_edits opened_world)
       = [(3, view (run ref_platform all_ok two_edits opened_world))]
   \<and> saves (step ref_platform all_ok (Timeout 3 []) (run ref_platform all_ok two_edits opened_world))
       = [SaveGraph ''/docs/g_data/g.json''
            (JSON_stringify ref_platform
               (JObj [(''nodes'',
                       JArr [JObj [(''id'', JStr ''a'')],
                             JObj [(''id'', JStr ''node-n3''), (''label'', JStr ''New node''),
                                   (''tagColor'', JStr ''#6366F1'')]]),
                      (''edges'',
                       JArr [JObj [(''source'', JStr ''a''), (''target'', JStr ''b''),
                                   (''directed'', JBool True)],
                             JObj [(''source'', JStr ''a''), (''target'', JStr ''node-n3''),
                                   (''directed'', JBool True)]])]))]
   \<and> timers (step ref_platform all_ok (Timeout 3 []) (run ref_platform all_ok two_edits opened_world)) = []"
proof -
  have wt: "well_timed opened_world"
    by code_simp
  have gf: "graphFile (view opened_world)
       = Some \<lparr>filePath = ''/docs/g_data/g.json'', baseDir = ''/docs/g_data''\<rparr>"
    by code_simp
  have fp: "filePath \<lparr>filePath = ''/docs/g_data/g.json'', baseDir = ''/docs/g_data''\<rparr> \<noteq> []"
    by simp
  have ne: "two_edits \<noteq> []"
    by (simp add: two_edits_def)
  have ms: "mutations ref_platform all_ok two_edits opened_world"
    by code_simp
  have before: "map fst (timers opened_world) = [1]" "saves opened_world = []"
    by code_simp+
  have after: "map fst (timers (run ref_platform all_ok two_edits opened_world)) = [3]"
    by code_simp
  have doc: "createGraphJson (nodes (view (run ref_platform all_ok two_edits opened_world)))
                 (edges (view (run ref_platform all_ok two_edits opened_world)))
       = JObj [(''nodes'',
                JArr [JObj [(''id'', JStr ''a'')],
                      JObj [(''id'', JStr ''node-n3''), (''label'', JStr ''New node''),
                            (''tagColor'', JStr ''#6366F1'')]]),
               (''edges'',
                JArr [JObj [(''source'', JStr ''a''), (''target'', JStr ''b''),
                            (''directed'', JBool True)],
                      JObj [(''source'', JStr ''a''), (''target'', JStr ''node-n3''),
                            (''directed'', JBool True)]])]"
    by code_simp
  have written: "saves (step ref_platform all_ok (Timeout 3 [])
                   (run ref_platform all_ok two_edits opened_world))
       = [SaveGraph ''/docs/g_data/g.json''
            (JSON_stringify ref_platform
               (createGraphJson (nodes (view (run ref_platform all_ok two_edits opened_world)))
                  (edges (view (run ref_platform all_ok two_edits opened_world)))))]"
    by code_simp
  from autosave_debounce [OF wt gf fp ne ms] wt gf ms before after written [unfolded doc]
  show ?thesis by (auto simp del: step.simps)
qed

subsection \<open>Which notes a save writes\<close>

lemma written_note_write: "written (note_write b notes i) \<subseteq> fst ` set notes"
proof (cases "map_of notes i")
  case None
  then show ?thesis
    by (simp add: note_write_def note_at_def)
next
  case (Some t)
  then have "(i, t) \<in> set notes"
    by (rule map_of_SomeD)
  then have "i \<in> fst ` set notes"
    by force
  with Some show ?thesis
    by (simp add: note_write_def note_at_def)
qed

lemma issued_persist:
  "issued (persist pf ok c fp bo) =
     (if ok (SaveGraph fp (JSON_stringify pf (createGraphJson (nodes c) (edges c))))
      then SaveGraph fp (JSON_stringify pf (createGraphJson (nodes c) (edges c)))
             # note_writes c (case bo of Some b \<Rightarrow> Some b | None \<Rightarrow> map_option baseDir (graphFile c))
      else [SaveGraph fp (JSON_stringify pf (createGraphJson (nodes c) (edges c)))])"
  by (simp add: persist_def Let_def)

lemma written_note_writes: "x \<in> set (note_writes c bd) \<Longrightarrow> written x \<subseteq> fst ` set (nodeNotes c)"
proof -
  assume "x \<in> set (note_writes c bd)"
  then have "x \<in> (\<lambda>n. note_write (the bd) (nodeNotes c) (node_id n)) ` set (nodes c)"
    by (simp add: note_writes_def split: if_splits)
  then obtain n :: node where "x = note_write (the bd) (nodeNotes c) (node_id n)"
    by blast
  then show ?thesis
    by (simp add: written_note_write)
qed

lemma written_persist:
  "x \<in> set (issued (persist pf ok c fp bo)) \<Longrightarrow> written x \<subseteq> fst ` set (nodeNotes c)"
  using written_note_writes [of x c]
  by (auto simp: issued_persist split: if_splits)

lemma written_handleSave:
  "\<forall>x \<in> set (issued (handleSave pf ok answers c fo bo)). written x \<subseteq> fst ` set (nodeNotes c)"
  "\<forall>x \<in> set (issued (handleSaveAs pf ok answers c)). written x \<subseteq> fst ` set (nodeNotes c)"
proof (induction pf ok answers c fo bo and pf ok answers c rule: handleSave_handleSaveAs.induct)
  case (1 pf ok answers c filePathOverride baseDirOverride)
  then show ?case
    using written_persist [of _ pf ok c]
    by (simp add: handleSave.simps Let_def)
next
  case (2 pf ok c)
  then show ?case by (simp add: handleSaveAs.simps)
next
  case (3 pf ok a answers c)
  then show ?case
    by (cases a) (simp_all add: handleSaveAs.simps Let_def)
qed

lemma held_reading:
  "selectedNodeId (view w) = Some i \<Longrightarrow>
     held (w\<lparr>reading := reading w @ [(b, i)], wire := wire w @ [ReadNodeFile b i]\<rparr>) = held w"
  by (auto simp: held_def)

lemma held_note_effect: "held (note_effect w) \<subseteq> held w"
proof (cases "note_effect w = w")
  case True
  then show ?thesis by simp
next
  case False
  then obtain i where "selectedNodeId (view w) = Some i"
    by (cases "selectedNodeId (view w)") (auto simp: note_effect_def Let_def truthy_str_def)
  then show ?thesis
    by (simp add: note_effect_def Let_def held_reading)
qed

lemma timers_autosave_effect:
  "set (timers (autosave_effect w)) \<subseteq> set (timers w) \<union> {(next_handle w, view w)}"
  by (auto simp: autosave_effect_def clear_saveTimeout_def split: option.splits if_splits)

lemma held_timers:
  assumes "set ts \<subseteq> set (timers w) \<union> {(h, view w)}"
  shows "held (w\<lparr>timers := ts, saveTimeout := a, next_handle := b\<rparr>) \<subseteq> held w"
proof -
  have "(\<Union>p \<in> set ts. fst ` set (nodeNotes (snd p)))
          \<subseteq> (\<Union>p \<in> set (timers w). fst ` set (nodeNotes (snd p))) \<union> fst ` set (nodeNotes (view w))"
    using assms by fastforce
  then show ?thesis
    unfolding held_def by auto
qed

lemma held_autosave_effect: "held (autosave_effect w) \<subseteq> held w"
proof (cases "truthy_str (map_option filePath (graphFile (view w)))")
  case True
  have "set (clear_saveTimeout w @ [(next_handle w, view w)])
          \<subseteq> set (timers w) \<union> {(next_handle w, view w)}"
    by (auto simp: clear_saveTimeout_def split: option.splits if_splits)
  from held_timers [OF this] True show ?thesis
    by (simp add: autosave_effect_def)
next
  case False
  then show ?thesis by (simp add: autosave_effect_def)
qed

lemma held_view:
  "held (w\<lparr>view := s'\<rparr>)
     \<subseteq> held w \<union> set_option (selectedNodeId s') \<union> fst ` set (nodeNotes s')"
  unfolding held_def by auto

lemma held_render:
  "held (render s' g n w) \<subseteq> held w \<union> set_option (selectedNodeId s') \<union> fst ` set (nodeNotes s')"
proof -
  let ?w1 = "w\<lparr>view := s'\<rparr>"
  have "held (render s' g n w) \<subseteq> held ?w1"
    using held_note_effect [of "autosave_effect ?w1"] held_note_effect [of ?w1]
      held_autosave_effect [of ?w1]
    by (simp add: render_def Let_def) blast
  with held_view [of s' w] show ?thesis by blast
qed

lemma held_wire:
  "(\<forall>x \<in> set xs. written x \<subseteq> held w) \<Longrightarrow> held (w\<lparr>wire := wire w @ xs\<rparr>) \<subseteq> held w"
  unfolding held_def by auto

lemma held_same_notes:
  assumes "set_option (selectedNodeId s') \<subseteq> held w" "fst ` set (nodeNotes s') \<subseteq> held w"
  shows "held (render s' g n w) \<subseteq> held w"
  using held_render [of s' g n w] assms by blast

lemma held_selected: "set_option (selectedNodeId (view w)) \<subseteq> held w"
  unfolding held_def by auto

lemma held_notes: "fst ` set (nodeNotes (view w)) \<subseteq> held w"
  unfolding held_def by auto

lemma held_snapshot:
  "map_of (timers w) t = Some c \<Longrightarrow> fst ` set (nodeNotes c) \<subseteq> held w"
proof -
  assume "map_of (timers w) t = Some c"
  then have "(t, c) \<in> set (timers w)"
    by (rule map_of_SomeD)
  then show ?thesis
    unfolding held_def by force
qed

lemma held_fired:
  "held (w\<lparr>timers := filter P (timers w)\<rparr>) \<subseteq> held w"
  unfolding held_def by auto

lemma held_read_settled:
  "held (w\<lparr>reading := take k (reading w) @ drop (Suc k) (reading w)\<rparr>) \<subseteq> held w"
proof -
  have "set (take k (reading w) @ drop (Suc k) (reading w)) \<subseteq> set (reading w)"
    using set_take_subset [of k "reading w"] set_drop_subset [of "Suc k" "reading w"]
    by auto
  then show ?thesis
    unfolding held_def by auto
qed

lemma held_read_key: "k < length (reading w) \<Longrightarrow> snd (reading w ! k) \<in> held w"
  unfolding held_def by auto

lemma keys_update: "fst ` set (AList.update k v xs) = insert k (fst ` set xs)"
  by (induction xs) auto

lemma keys_delete: "fst ` set (AList.delete k xs) \<subseteq> fst ` set xs"
  by (induction xs) auto

lemma handleOpen_resets:
  "handleOpen pf uuid k (Inr (Some r)) s = (None, s') \<Longrightarrow>
     nodeNotes s' = [] \<and> selectedNodeId s' = None
     \<and> graphFile s' = Some \<lparr>filePath = filePath r, baseDir = baseDir r\<rparr>"
  by (auto simp: handleOpen_def split: sum.splits)

lemma handleNew_resets:
  "handleNew pf k s = (None, s') \<Longrightarrow> nodeNotes s' = [] \<and> selectedNodeId s' = None"
  by (auto simp: handleNew_def split: sum.splits)

lemma held_after_save_from:
  assumes "\<forall>x \<in> set (issued r). written x \<subseteq> S"
  shows "held (after_save r w) \<subseteq> held w \<union> S"
proof -
  let ?w1 = "w\<lparr>wire := wire w @ issued r\<rparr>"
  have w1: "held ?w1 \<subseteq> held w \<union> S"
    using assms unfolding held_def by auto
  let ?w2 = "case bound r of None \<Rightarrow> ?w1
     | Some gf \<Rightarrow> render ((view ?w1)\<lparr>graphFile := Some gf\<rparr>) False False ?w1"
  have w2: "held ?w2 \<subseteq> held ?w1"
    using held_selected [of ?w1] held_notes [of ?w1]
    by (cases "bound r") (simp_all add: held_same_notes)
  have "held (after_save r w) \<subseteq> held ?w2"
    using held_selected [of ?w2] held_notes [of ?w2]
    by (cases "said r") (simp_all add: after_save_def Let_def held_same_notes)
  with w1 w2 show ?thesis by blast
qed

lemma held_edit:
  assumes "selectedNodeId s' = selectedNodeId (view w) \<or> selectedNodeId s' = None"
    and "fst ` set (nodeNotes s') \<subseteq> fst ` set (nodeNotes (view w))"
  shows "held (render s' g n w) \<subseteq> held w"
proof (rule held_same_notes)
  show "set_option (selectedNodeId s') \<subseteq> held w"
    using assms(1) held_selected [of w] by auto
  show "fst ` set (nodeNotes s') \<subseteq> held w"
    using assms(2) held_notes [of w] by blast
qed

lemma held_step_new: "held (step pf ok (New k) w) \<subseteq> held w"
proof (cases "handleNew pf k (view w)")
  case (Pair e s')
  show ?thesis
  proof (cases e)
    case None
    with Pair handleNew_resets [of pf k "view w" s'] show ?thesis
      by (simp add: held_edit)
  next
    case (Some a)
    with Pair show ?thesis by simp
  qed
qed

lemma held_step_open: "held (step pf ok (Open opened uuid k) w) \<subseteq> held w"
proof -
  let ?w1 = "w\<lparr>wire := wire w @ [OpenGraph]\<rparr>"
  have w1: "held ?w1 \<subseteq> held w"
    by (rule held_wire) simp
  show ?thesis
  proof (cases opened)
    case (Inl e)
    with w1 show ?thesis by simp
  next
    case (Inr a)
    show ?thesis
    proof (cases a)
      case None
      with Inr w1 show ?thesis by simp
    next
      case (Some r)
      show ?thesis
      proof (cases "handleOpen pf uuid k (Inr (Some r)) (view w)")
        case (Pair e s')
        show ?thesis
        proof (cases e)
          case None
          with Pair handleOpen_resets [of pf uuid k r "view w" s']
          have "held (render s' True True ?w1) \<subseteq> held ?w1"
            by (simp add: held_edit)
          with Inr Some Pair None w1 show ?thesis by simp
        next
          case (Some e')
          with Inr \<open>a = Some r\<close> Pair w1 show ?thesis by simp
        qed
      qed
    qed
  qed
qed

lemma held_step_save: "held (step pf ok (Save answers) w) \<subseteq> held w"
proof -
  have "held (after_save (handleSave pf ok answers (view w) None None) w)
          \<subseteq> held w \<union> fst ` set (nodeNotes (view w))"
    by (rule held_after_save_from) (rule written_handleSave)
  with held_notes [of w] show ?thesis by simp blast
qed

lemma held_step_saveAs: "held (step pf ok (SaveAs answers) w) \<subseteq> held w"
proof -
  have "held (after_save (handleSaveAs pf ok answers (view w)) w)
          \<subseteq> held w \<union> fst ` set (nodeNotes (view w))"
    by (rule held_after_save_from) (rule written_handleSave)
  with held_notes [of w] show ?thesis by simp blast
qed

lemma held_step_timeout: "held (step pf ok (Timeout t answers) w) \<subseteq> held w"
proof (cases "map_of (timers w) t")
  case None
  then show ?thesis by simp
next
  case (Some c)
  let ?w1 = "w\<lparr>timers := filter (\<lambda>p. fst p \<noteq> t) (timers w)\<rparr>"
  have "held (after_save (handleSave pf ok answers c None None) ?w1)
          \<subseteq> held ?w1 \<union> fst ` set (nodeNotes c)"
    by (rule held_after_save_from) (rule written_handleSave)
  with held_fired [of _ w] held_snapshot [OF Some] Some show ?thesis
    by simp blast
qed

lemma held_step_read: "held (step pf ok (ReadDone k content) w) \<subseteq> held w"
proof (cases "k < length (reading w)")
  case True
  let ?w1 = "w\<lparr>reading := take k (reading w) @ drop (Suc k) (reading w)\<rparr>"
  let ?s' = "(view w)\<lparr>nodeNotes := AList.update (snd (reading w ! k)) content (nodeNotes (view w))\<rparr>"
  have "held (render ?s' False True ?w1) \<subseteq> held ?w1 \<union> set_option (selectedNodeId ?s')
           \<union> fst ` set (nodeNotes ?s')"
    by (rule held_render)
  moreover have "held ?w1 \<subseteq> held w"
    by (rule held_read_settled)
  moreover have "set_option (selectedNodeId ?s') \<subseteq> held w"
    using held_selected [of w] by simp
  moreover have "fst ` set (nodeNotes ?s') \<subseteq> held w"
    using held_notes [of w] held_read_key [OF True] by (simp add: keys_update)
  ultimately show ?thesis
    using True by simp blast
next
  case False
  then show ?thesis by simp
qed

lemma held_step_note: "held (step pf ok (NoteInput v) w) \<subseteq> held w"
proof (cases "selectedNodeId (view w)")
  case None
  then show ?thesis
    by (simp add: onNoteInput_def held_edit)
next
  case (Some i)
  have "held (render (onNoteInput v (view w)) False True w) \<subseteq> held w"
  proof (rule held_same_notes)
    show "set_option (selectedNodeId (onNoteInput v (view w))) \<subseteq> held w"
      using held_selected [of w] Some by (simp add: onNoteInput_def)
    show "fst ` set (nodeNotes (onNoteInput v (view w))) \<subseteq> held w"
      using held_selected [of w] held_notes [of w] Some
      by (simp add: onNoteInput_def keys_update)
  qed
  then show ?thesis by simp
qed

lemma held_step_click: "held (step pf ok (NodeClick i) w) \<subseteq> held w \<union> {i}"
  using held_render [of "(view w)\<lparr>selectedNodeId := Some i, selectedEdgeId := None\<rparr>" False False w]
    held_notes [of w]
  by simp blast

lemma held_step: "held (step pf ok ev w) \<subseteq> held w \<union> clicked ev"
proof (cases ev)
  case (New k)
  show ?thesis unfolding New using held_step_new [of pf ok k w] by blast
next
  case (Open opened uuid k)
  show ?thesis unfolding Open using held_step_open [of pf ok opened uuid k w] by blast
next
  case (Save answers)
  show ?thesis unfolding Save using held_step_save [of pf ok answers w] by blast
next
  case (SaveAs answers)
  show ?thesis unfolding SaveAs using held_step_saveAs [of pf ok answers w] by blast
next
  case (Timeout t answers)
  show ?thesis unfolding Timeout using held_step_timeout [of pf ok t answers w] by blast
next
  case (ReadDone k content)
  show ?thesis unfolding ReadDone using held_step_read [of pf ok k content w] by blast
next
  case (NoteInput v)
  show ?thesis unfolding NoteInput using held_step_note [of pf ok v w] by blast
next
  case (NodeClick i)
  show ?thesis unfolding NodeClick using held_step_click [of pf ok i w] by simp
next
  case DeleteNode
  from keys_delete [of "the (selectedNodeId (view w))" "nodeNotes (view w)"] DeleteNode
  show ?thesis
    by (simp add: onDeleteNode_def Let_def held_edit le_supI1)
next
  case (AutoLayout k)
  then show ?thesis
    by (cases "layoutGraph pf k (nodes (view w)) (edges (view w))")
      (simp_all add: onAutoLayout_def held_edit le_supI1)
next
  case (Connect src tgt uuid)
  then show ?thesis
    by (cases "addEdge pf (createEdge src tgt uuid True) (edges (view w))")
      (simp_all add: onConnect_def held_edit le_supI1)
qed (simp_all add: held_read_settled held_edit le_supI1 onAddNode_def
    onToggleEdgeDirection_def onDeleteEdge_def updateSelectedNode_def
    onAddTag_def Let_def)

lemma held_run: "held (run pf ok evs w) \<subseteq> held w \<union> clicks evs"
proof (induction evs arbitrary: w)
  case Nil
  then show ?case by (simp add: run_def)
next
  case (Cons e es)
  have "held (run pf ok (e # es) w) = held (run pf ok es (step pf ok e w))"
    by (simp add: run_def)
  also have "\<dots> \<subseteq> held (step pf ok e w) \<union> clicks es"
    by (rule Cons.IH)
  also have "\<dots> \<subseteq> held w \<union> clicked e \<union> clicks es"
    using held_step [of pf ok e w] by blast
  finally show ?case
    by (auto simp: clicks_def)
qed

lemma held_initial:
  "nodeNotes s = [] \<Longrightarrow> selectedNodeId s = None \<Longrightarrow> held (initial_world s) = {}"
  by (simp add: held_def initial_world_def)

text \<open>
  A run of \<open>handleSave\<close> with a file bound, whose \<open>saveGraph\<close> call resolves, issues a
  \<open>writeNodeFile\<close> call for every node of the render it belongs to, in order, with
  the note that render holds for the node's id. If it holds none, the content is the
  empty string, or, for an id that \<open>Object.prototype\<close> has a property for, that
  property.
\<close>

lemma handleSave_writes_every_note:
  assumes "graphFile c = Some gf" "filePath gf \<noteq> []" "baseDir gf \<noteq> []"
    and "ok (SaveGraph (filePath gf) (JSON_stringify pf (createGraphJson (nodes c) (edges c))))"
  shows "issued (handleSave pf ok answers c None None)
     = SaveGraph (filePath gf) (JSON_stringify pf (createGraphJson (nodes c) (edges c)))
       # map (\<lambda>n. case map_of (nodeNotes c) (node_id n) of
                    Some t \<Rightarrow> WriteNodeFile (baseDir gf) (node_id n) t
                  | None \<Rightarrow>
                      if node_id n \<in> set Object_prototype
                      then WriteInherited (baseDir gf) (node_id n)
                      else WriteNodeFile (baseDir gf) (node_id n) []) (nodes c)"
  using assms
  by (simp add: handleSave.simps truthy_str_def issued_persist note_writes_def note_write_def
      note_at_def split: option.splits)

text \<open>The handler of \<open>node:write\<close> puts the content in the node's file.\<close>

lemma node_write_read: "node_read pf b i (node_write pf b i t d) = t"
  by (simp add: node_read_def node_write_def update_conv)

text \<open>
  In a run from a start with no notes and no selection, every call that writes a
  string to the note file of a node that was never clicked writes the empty string.
\<close>

lemma unselected_note_written_empty:
  assumes "nodeNotes s = []" "selectedNodeId s = None"
    and "WriteNodeFile b i t \<in> set (wire (run pf ok evs (initial_world s)))"
    and "i \<notin> clicks evs"
  shows "t = []"
proof (rule ccontr)
  assume "t \<noteq> []"
  with assms(3) have "i \<in> held (run pf ok evs (initial_world s))"
    unfolding held_def by force
  with held_run [of pf ok evs "initial_world s"] held_initial [OF assms(1,2)] assms(4)
  show False by auto
qed

text \<open>
  C2 fails for the autosave. The timeout calls the \<open>handleSave\<close> of the render that
  scheduled it, and that function reads the \<open>nodeNotes\<close> of its own render; the effect
  does not run again when only the notes change. Here the document is opened (the
  timeout is scheduled with no note held), node \<open>a\<close> is clicked and its note \<open>hello\<close> is
  read into memory, and then the timeout fires: the session holds \<open>hello\<close> for \<open>a\<close>, and
  the one note file written is that of \<open>a\<close>, with empty content, which replaces the
  \<open>hello\<close> on the disk. The Save button, pressed instead, writes \<open>hello\<close>.
\<close>

theorem autosave_writes_stale_note:
  "map node_id (nodes (view stale_world)) = [''a'']
   \<and> map_of (nodeNotes (view stale_world)) ''a'' = Some ''hello''
   \<and> note_calls stale_world = [WriteNodeFile ''/docs/g_data'' ''a'' []]
   \<and> node_read ref_platform ''/docs/g_data'' ''a'' noted_disk = ''hello''
   \<and> node_read ref_platform ''/docs/g_data'' ''a''
        (fold (serve ref_platform) (wire stale_world) noted_disk) = []
   \<and> note_calls (step ref_platform all_ok (Save [])
        (run ref_platform all_ok (butlast stale_events) (initial_world ref_session)))
       = [WriteNodeFile ''/docs/g_data'' ''a'' ''hello'']"
  by code_simp

subsection \<open>Opening resets the notes\<close>

lemma note_calls_note_effect [simp]: "note_calls (note_effect w) = note_calls w"
  by (simp add: note_calls_def note_effect_def Let_def)

lemma note_calls_autosave_effect [simp]: "note_calls (autosave_effect w) = note_calls w"
  by (simp add: note_calls_def autosave_effect_def)

lemma note_calls_view [simp]: "note_calls (w\<lparr>view := s\<rparr>) = note_calls w"
  by (simp add: note_calls_def)

lemma note_calls_timers [simp]: "note_calls (w\<lparr>timers := ts\<rparr>) = note_calls w"
  by (simp add: note_calls_def)

lemma note_calls_render [simp]: "note_calls (render s' g n w) = note_calls w"
  by (simp add: render_def Let_def)

lemma note_calls_after_save:
  "note_calls (after_save r w) = note_calls w @ filter is_WriteNodeFile (issued r)"
proof -
  have "note_calls (w\<lparr>wire := wire w @ issued r\<rparr>)
          = note_calls w @ filter is_WriteNodeFile (issued r)"
    by (simp add: note_calls_def)
  then show ?thesis
    by (cases "bound r"; cases "said r") (simp_all add: after_save_def Let_def)
qed

lemma timeout_note_calls:
  "timers w = [(h, c)] \<Longrightarrow>
     note_calls (step pf ok (Timeout h answers) w)
       = note_calls w @ filter is_WriteNodeFile (issued (handleSave pf ok answers c None None))"
  by (simp add: note_calls_after_save)

lemma is_WriteNodeFile_note_write [simp]: "is_WriteNodeFile (note_write b notes i)"
  by (simp add: note_write_def split: note_value.splits)

lemma filter_note_writes [simp]: "filter is_WriteNodeFile (note_writes c bd) = note_writes c bd"
  by (simp add: note_writes_def)

lemma handleOpen_forgets:
  "handleOpen pf uuid k (Inr (Some r)) s = (None, s') \<Longrightarrow>
     handleOpen pf uuid k (Inr (Some r)) (s\<lparr>nodeNotes := m, selectedNodeId := x\<rparr>) = (None, s')"
  by (auto simp: handleOpen_def split: sum.splits)

text \<open>
  What \<open>handleOpen\<close> does reset. Where it opens a document, the session it leaves holds
  no note and no selected node, and it is the same session whatever notes and
  selection were held before. In the component (its timeouts those of the autosave
  effect), the only save scheduled after the opening is that of the new session; if
  its timeout fires as it stands, the note files it writes are those of the new
  document's nodes, in the new document's directory, with no note of the session
  before.
\<close>

lemma handleOpen_then_timeout:
  assumes "well_timed w" and "handleOpen pf uuid k (Inr (Some r)) (view w) = (None, s')"
    and "filePath r \<noteq> []"
  shows "nodeNotes s' = [] \<and> selectedNodeId s' = None
    \<and> (\<forall>m x. handleOpen pf uuid k (Inr (Some r)) ((view w)\<lparr>nodeNotes := m, selectedNodeId := x\<rparr>)
                 = (None, s'))
    \<and> view (step pf ok (Open (Inr (Some r)) uuid k) w) = s'
    \<and> timers (step pf ok (Open (Inr (Some r)) uuid k) w) = [(next_handle w, s')]
    \<and> (\<forall>answers.
          note_calls (step pf ok (Timeout (next_handle w) answers)
                        (step pf ok (Open (Inr (Some r)) uuid k) w))
            = note_calls w
              @ (if ok (SaveGraph (filePath r) (JSON_stringify pf (createGraphJson (nodes s') (edges s'))))
                    \<and> baseDir r \<noteq> []
                 then map (\<lambda>n. note_write (baseDir r) [] (node_id n)) (nodes s') else []))"
proof -
  let ?w1 = "w\<lparr>wire := wire w @ [OpenGraph]\<rparr>"
  let ?gf = "\<lparr>filePath = filePath r, baseDir = baseDir r\<rparr>"
  note reset = handleOpen_resets [OF assms(2)]
  have gf: "graphFile s' = Some ?gf" "filePath ?gf \<noteq> []"
    using reset assms(3) by simp_all
  have wt: "well_timed ?w1"
    using assms(1) by simp
  let ?wo = "step pf ok (Open (Inr (Some r)) uuid k) w"
  have opened: "?wo = render s' True True ?w1"
    using assms(2) by simp
  have v: "view ?wo = s'"
    unfolding opened using render_graph_set(1) [OF wt gf] by simp
  have t: "timers ?wo = [(next_handle w, s')]"
    unfolding opened using render_graph_set(2) [OF wt gf] by simp
  have "note_calls ?w1 = note_calls w"
    by (simp add: note_calls_def)
  then have calls: "note_calls ?wo = note_calls w"
    unfolding opened by simp
  have fired: "filter is_WriteNodeFile (issued (handleSave pf ok answers s' None None))
      = (if ok (SaveGraph (filePath r) (JSON_stringify pf (createGraphJson (nodes s') (edges s'))))
            \<and> baseDir r \<noteq> []
         then map (\<lambda>n. note_write (baseDir r) [] (node_id n)) (nodes s') else [])" for answers
    using gf reset
    by (simp add: handleSave.simps truthy_str_def issued_persist note_writes_def)
  have last: "note_calls (step pf ok (Timeout (next_handle w) answers) ?wo)
      = note_calls w
        @ (if ok (SaveGraph (filePath r) (JSON_stringify pf (createGraphJson (nodes s') (edges s'))))
              \<and> baseDir r \<noteq> []
           then map (\<lambda>n. note_write (baseDir r) [] (node_id n)) (nodes s') else [])" for answers
    using timeout_note_calls [OF t, of pf ok answers] calls fired [of answers]
    by (simp del: step.simps)
  from reset have "nodeNotes s' = []" "selectedNodeId s' = None"
    by simp_all
  with handleOpen_forgets [OF assms(2)] v t last show ?thesis
    by (simp del: step.simps)
qed

text \<open>
  C10 fails where a note of the document before is still being read when the new
  document is opened. The continuation of \<open>readNodeFile\<close> stores what it read under
  the node id it was started for, in whatever session is there when it runs; it does
  not look at the document. Here the first document is opened and its node \<open>a\<close> is
  clicked, which sends the read of its note \<open>hello\<close>. The second document, which has
  a node \<open>a\<close> too and holds \<open>kept\<close> as its note, is opened before the read settles:
  \<open>handleOpen\<close> empties the notes and the selection. Then the read settles, and the
  session of the second document holds \<open>hello\<close> for \<open>a\<close>. A node is added, the
  autosave fires, and \<open>hello\<close> is written over \<open>kept\<close> in the second document's
  directory.
\<close>

theorem handleOpen_keeps_read_in_flight:
  "reading (run ref_platform all_ok (take 2 race_events) (initial_world ref_session))
     = [(''/docs/g_data'', ''a'')]
   \<and> nodeNotes (view (run ref_platform all_ok (take 3 race_events) (initial_world ref_session))) = []
   \<and> selectedNodeId (view (run ref_platform all_ok (take 3 race_events) (initial_world ref_session)))
       = None
   \<and> graphFile (view (run ref_platform all_ok (take 3 race_events) (initial_world ref_session)))
       = Some \<lparr>filePath = ''/docs/h_data/h.json'', baseDir = ''/docs/h_data''\<rparr>
   \<and> reading (run ref_platform all_ok (take 3 race_events) (initial_world ref_session))
       = [(''/docs/g_data'', ''a'')]
   \<and> nodeNotes (view (run ref_platform all_ok (take 4 race_events) (initial_world ref_session)))
       = [(''a'', ''hello'')]
   \<and> note_calls (run ref_platform all_ok race_events (initial_world ref_session))
       = [WriteNodeFile ''/docs/h_data'' ''a'' ''hello'',
          WriteNodeFile ''/docs/h_data'' ''node-n2'' []]
   \<and> node_read ref_platform ''/docs/h_data'' ''a'' two_disk = ''kept''
   \<and> node_read ref_platform ''/docs/h_data'' ''a''
        (fold (serve ref_platform)
           (wire (run ref_platform all_ok race_events (initial_world ref_session))) two_disk)
       = ''hello''"
  by code_simp

end
